theory Spec2Isabelle
  imports Complex_Main
begin

section \<open>Python values\<close>

text \<open>
  The exceptions that the two source files and the calls they make can raise.
  A call returns \<open>Inr v\<close> or raises, which is \<open>Inl e\<close>.
\<close>

datatype py_error = ValueError | TypeError | NotImplementedError | AttributeError | ZeroDivisionError

text \<open>
  An attribute of a parent that may hold a method: \<open>hasattr\<close> is false for
  \<open>Absent\<close>; an optional abstract method that the parent does not override reads as the
  value \<open>NotImplemented\<close>; otherwise the attribute is a method.
\<close>

datatype 'a attribute = Absent | NotImplemented | Method 'a

text \<open>
  A generator or comprehension whose body may raise: the items are computed in order and the
  first exception ends the evaluation.
\<close>

fun map_result :: "('a \<Rightarrow> py_error + 'b) \<Rightarrow> 'a list \<Rightarrow> py_error + 'b list" where
  "map_result f [] = Inr []"
| "map_result f (x # xs) =
     (case f x of
        Inl e \<Rightarrow> Inl e
      | Inr y \<Rightarrow> (case map_result f xs of Inl e \<Rightarrow> Inl e | Inr ys \<Rightarrow> Inr (y # ys)))"

section \<open>Elements of a module with basis\<close>

text \<open>
  An element of a module with basis is the dictionary of its monomial coefficients, here the
  list of the dictionary's items \<open>(index, coefficient)\<close> in iteration order. The framework
  keeps the indices distinct and drops zero coefficients; \<open>add_term\<close> is the step that does so.
  The coefficient ring is any commutative ring with one.
\<close>

type_synonym ('k, 'r) element = "('k \<times> 'r) list"

text \<open>
  The coefficient of the basis element \<open>B[k]\<close> in \<open>x\<close>. For a dictionary (distinct indices) it
  is the stored value, and zero for an index that is not stored. Two elements of a parent are
  equal in the program when they have the same coefficients.
\<close>

fun coeff :: "('k, 'r::comm_ring_1) element \<Rightarrow> 'k \<Rightarrow> 'r" where
  "coeff [] k = 0"
| "coeff ((j, c) # x) k = (if j = k then c else 0) + coeff x k"

fun add_term :: "'k \<Rightarrow> 'r::comm_ring_1 \<Rightarrow> ('k, 'r) element \<Rightarrow> ('k, 'r) element" where
  "add_term k c [] = (if c = 0 then [] else [(k, c)])"
| "add_term k c ((j, d) # x) =
     (if j = k then (if d + c = 0 then x else (j, d + c) # x)
      else (j, d) # add_term k c x)"

text \<open>
  An element is a dictionary when its indices are distinct and none of its coefficients is
  zero. For dictionaries, having the same coefficients is being equal as mappings.
\<close>

definition is_dict :: "('k, 'r::comm_ring_1) element \<Rightarrow> bool" where
  "is_dict x = (distinct (map fst x) \<and> 0 \<notin> snd ` set x)"

text \<open>
  Modelled from the spec: the constructors of elements that the surrounding framework
  provides (\<open>monomial\<close>, \<open>term\<close>, \<open>sum_of_terms\<close>, \<open>sum_of_monomials\<close>,
  \<open>linear_combination\<close>) are not among the sources; they build the dictionary of the
  sum they are named after. \<open>term\<close> is a keyword of Isabelle, hence \<open>term_elt\<close>.
\<close>

definition monomial :: "'k \<Rightarrow> ('k, 'r::comm_ring_1) element" where
  "monomial k = [(k, 1)]"

definition term_elt :: "'k \<Rightarrow> 'r::comm_ring_1 \<Rightarrow> ('k, 'r) element" where
  "term_elt k c = (if c = 0 then [] else [(k, c)])"

definition sum_of_terms :: "('k \<times> 'r::comm_ring_1) list \<Rightarrow> ('k, 'r) element" where
  "sum_of_terms ts = fold (\<lambda>(k, c). add_term k c) ts []"


definition axpy ::
  "'r::comm_ring_1 \<Rightarrow> ('k, 'r) element \<Rightarrow> ('k, 'r) element \<Rightarrow> ('k, 'r) element" where
  "axpy a y acc = fold (\<lambda>(k, c). add_term k (a * c)) y acc"

definition linear_combination ::
  "(('k, 'r::comm_ring_1) element \<times> 'r) list \<Rightarrow> ('k, 'r) element" where
  "linear_combination ts = fold (\<lambda>(y, a). axpy a y) ts []"

text \<open>
  Modelled from the spec: the "module morphism by linearity" constructor, "taking a function
  on basis indices and returning a linear extension", is not among the sources. With a
  module with basis as codomain the images are combined by \<open>linear_combination\<close>; with the
  base ring as codomain they are summed there.
\<close>

definition module_morphism ::
  "('i \<Rightarrow> ('k, 'r::comm_ring_1) element) \<Rightarrow> ('i, 'r) element \<Rightarrow> ('k, 'r) element" where
  "module_morphism on_basis x = linear_combination (map (\<lambda>(i, c). (on_basis i, c)) x)"

definition module_morphism_to_ring ::
  "('i \<Rightarrow> 'r::comm_ring_1) \<Rightarrow> ('i, 'r) element \<Rightarrow> 'r" where
  "module_morphism_to_ring on_basis x = sum_list (map (\<lambda>(i, c). c * on_basis i) x)"

section \<open>Tensor products of elements\<close>

text \<open>
  Python is untyped: an element of a coalgebra \<open>A\<close> has the indices of \<open>A\<close> as keys, an
  element of \<open>tensor([A, A])\<close> has pairs as keys, and an element of a longer tensor product
  has tuples. A value of \<open>tensor_element\<close> is an element together with the kind of parent
  it lives in. \<open>tuple_keys\<close> reads every kind with tuples as keys, the way the framework's
  \<open>tensor\<close> flattens its arguments: an index of \<open>A\<close> counts as one component.
\<close>

datatype ('i, 'r) tensor_element =
    Atomic "('i, 'r) element"
  | Tensor2 "('i \<times> 'i, 'r) element"
  | Tensor "('i list, 'r) element"

fun tuple_keys :: "('i, 'r) tensor_element \<Rightarrow> ('i list, 'r) element" where
  "tuple_keys (Atomic x) = map (\<lambda>(i, c). ([i], c)) x"
| "tuple_keys (Tensor2 z) = map (\<lambda>((a, b), c). ([a, b], c)) z"
| "tuple_keys (Tensor y) = y"

text \<open>
  Modelled from the spec: the "tensor" constructor over a sequence of modules with basis is
  not among the sources. On elements it is the multilinear map that sends basis elements to
  the basis element indexed by the concatenated tuple. The sources call it with at least one
  factor.
\<close>

definition tensor2 ::
  "('i list, 'r::comm_ring_1) element \<Rightarrow> ('i list, 'r) element \<Rightarrow> ('i list, 'r) element" where
  "tensor2 u v = sum_of_terms (concat (map (\<lambda>(k, c). map (\<lambda>(l, d). (k @ l, c * d)) v) u))"

fun tensor :: "('i, 'r::comm_ring_1) tensor_element list \<Rightarrow> ('i list, 'r) element" where
  "tensor [] = monomial []"
| "tensor (x # xs) = tensor2 (tuple_keys x) (tensor xs)"

text \<open>
  Modelled from the spec: \<open>apply_multilinear_morphism\<close> of an element of
  \<open>tensor([A, A])\<close> is not among the sources. It calls \<open>f\<close> on the pair of basis elements
  of every term, in iteration order, and returns the linear combination of the results; an
  exception raised by \<open>f\<close> propagates.
\<close>

definition apply_multilinear_morphism ::
  "(('i, 'r::comm_ring_1) element \<Rightarrow> ('i, 'r) element \<Rightarrow> py_error + ('k, 'r) element)
   \<Rightarrow> ('i \<times> 'i, 'r) element \<Rightarrow> py_error + ('k, 'r) element" where
  "apply_multilinear_morphism f z =
     (case map_result
             (\<lambda>((a, b), c). case f (monomial a) (monomial b) of
                                Inl e \<Rightarrow> Inl e
                              | Inr y \<Rightarrow> Inr (y, c)) z of
        Inl e \<Rightarrow> Inl e
      | Inr ts \<Rightarrow> Inr (linear_combination ts))"

section \<open>Coalgebras with basis (coalgebras\_with\_basis.py)\<close>

text \<open>
  A parent in \<open>CoalgebrasWithBasis\<close>, as far as the category's methods read it.
  \<open>coproduct_on_basis\<close> and \<open>counit_on_basis\<close> are optional abstract methods: \<open>None\<close>
  is the value \<open>NotImplemented\<close>. \<open>coproduct_by_coercion\<close> and \<open>counit_by_coercion\<close>
  are attributes that a parent may lack: \<open>None\<close> is \<open>hasattr\<close> being false.
\<close>

record ('i, 'r) coalgebra_with_basis =
  coproduct_on_basis :: "('i \<Rightarrow> ('i \<times> 'i, 'r) element) option"
  coproduct_by_coercion :: "(('i, 'r) element \<Rightarrow> ('i \<times> 'i, 'r) element) option"
  counit_on_basis :: "('i \<Rightarrow> 'r) option"
  counit_by_coercion :: "(('i, 'r) element \<Rightarrow> 'r) option"

text \<open>
  \<open>ParentMethods.coproduct\<close> (lines 73 to 102). The lazy attribute is a morphism, or
  Python's \<open>None\<close> when neither branch applies (the method then ends without a
  \<open>return\<close>).
\<close>

definition coproduct ::
  "('i, 'r::comm_ring_1) coalgebra_with_basis
   \<Rightarrow> (('i, 'r) element \<Rightarrow> ('i \<times> 'i, 'r) element) option" where
  "coproduct self =
     (case coproduct_on_basis self of
        Some on_basis \<Rightarrow> Some (module_morphism on_basis)
      | None \<Rightarrow>
          (case coproduct_by_coercion self of
             Some by_coercion \<Rightarrow> Some by_coercion
           | None \<Rightarrow> None))"

text \<open>\<open>ParentMethods.counit\<close> (lines 128 to 152).\<close>

definition counit ::
  "('i, 'r::comm_ring_1) coalgebra_with_basis \<Rightarrow> (('i, 'r) element \<Rightarrow> 'r) option" where
  "counit self =
     (case counit_on_basis self of
        Some on_basis \<Rightarrow> Some (module_morphism_to_ring on_basis)
      | None \<Rightarrow>
          (case counit_by_coercion self of
             Some by_coercion \<Rightarrow> Some by_coercion
           | None \<Rightarrow> None))"

text \<open>
  Modelled from the spec: the element method \<open>coproduct()\<close> that \<open>coproduct_iterated\<close>
  calls is not among the sources. It applies the parent's \<open>coproduct\<close> attribute to the
  element; calling the value \<open>None\<close> raises \<open>TypeError\<close>.
\<close>

definition element_coproduct ::
  "('i, 'r::comm_ring_1) coalgebra_with_basis \<Rightarrow> ('i, 'r) element
   \<Rightarrow> py_error + ('i \<times> 'i, 'r) element" where
  "element_coproduct parent self =
     (case coproduct parent of None \<Rightarrow> Inl TypeError | Some f \<Rightarrow> Inr (f self))"

text \<open>
  \<open>ElementMethods.coproduct_iterated\<close> (lines 155 to 220). \<open>parent\<close> is
  \<open>self.parent()\<close>. Python's \<open>//\<close> and \<open>%\<close> on integers are \<open>div\<close> and \<open>mod\<close>.
\<close>

function coproduct_iterated ::
  "('i, 'r::comm_ring_1) coalgebra_with_basis \<Rightarrow> int \<Rightarrow> ('i, 'r) element
   \<Rightarrow> py_error + ('i, 'r) tensor_element" where
  "coproduct_iterated parent n self =
     (if n < 0 then Inl ValueError
      else if n = 0 then Inr (Atomic self)
      else if n = 1 then
        (case element_coproduct parent self of Inl e \<Rightarrow> Inl e | Inr z \<Rightarrow> Inr (Tensor2 z))
      else
        (let fn = (n - 1) div 2;
             cn = (if n mod 2 \<noteq> 0 then (n - 1) div 2 else n div 2);
             split = (\<lambda>a b.
               case coproduct_iterated parent fn a of
                 Inl e \<Rightarrow> Inl e
               | Inr u \<Rightarrow>
                   (case coproduct_iterated parent cn b of
                      Inl e \<Rightarrow> Inl e
                    | Inr v \<Rightarrow> Inr (tensor [u, v])))
         in case element_coproduct parent self of
              Inl e \<Rightarrow> Inl e
            | Inr z \<Rightarrow>
                (case apply_multilinear_morphism split z of
                   Inl e \<Rightarrow> Inl e
                 | Inr y \<Rightarrow> Inr (Tensor y))))"
  by pat_completeness auto
termination
  by (relation "measure (\<lambda>(parent, n, self). nat n)") auto

text \<open>
  The words of the claim about \<open>coproduct_iterated\<close>, not the code: the naive iterated
  coproduct applies the coproduct once more to one side, the leftmost tensor factor, at each
  of \<open>n\<close> steps. \<open>coproduct_on_first_factor\<close> is \<open>\<Delta> \<otimes> id \<otimes> \<dots> \<otimes> id\<close>.
\<close>

definition coproduct_on_first_factor ::
  "(('i, 'r::comm_ring_1) element \<Rightarrow> ('i \<times> 'i, 'r) element)
   \<Rightarrow> ('i list, 'r) element \<Rightarrow> ('i list, 'r) element" where
  "coproduct_on_first_factor f y =
     module_morphism
       (\<lambda>k. case k of
               [] \<Rightarrow> []
             | i # rest \<Rightarrow> tensor [Tensor2 (f (monomial i)), Tensor (monomial rest)]) y"

fun naive_coproduct_iterated ::
  "(('i, 'r::comm_ring_1) element \<Rightarrow> ('i \<times> 'i, 'r) element)
   \<Rightarrow> nat \<Rightarrow> ('i, 'r) element \<Rightarrow> ('i list, 'r) element" where
  "naive_coproduct_iterated f 0 x = tuple_keys (Atomic x)"
| "naive_coproduct_iterated f (Suc n) x =
     coproduct_on_first_factor f (naive_coproduct_iterated f n x)"

text \<open>
  A coproduct \<open>f\<close> is linear when it is the linear extension of its values on the basis, and
  coassociative when \<open>(f \<otimes> id) \<circ> f\<close> and \<open>(id \<otimes> f) \<circ> f\<close> agree on every basis element.
\<close>

definition coproduct_tensor_id ::
  "(('i, 'r::comm_ring_1) element \<Rightarrow> ('i \<times> 'i, 'r) element)
   \<Rightarrow> ('i \<times> 'i, 'r) element \<Rightarrow> ('i list, 'r) element" where
  "coproduct_tensor_id f z =
     module_morphism (\<lambda>(a, b). tensor [Tensor2 (f (monomial a)), Atomic (monomial b)]) z"

definition id_tensor_coproduct ::
  "(('i, 'r::comm_ring_1) element \<Rightarrow> ('i \<times> 'i, 'r) element)
   \<Rightarrow> ('i \<times> 'i, 'r) element \<Rightarrow> ('i list, 'r) element" where
  "id_tensor_coproduct f z =
     module_morphism (\<lambda>(a, b). tensor [Atomic (monomial a), Tensor2 (f (monomial b))]) z"

definition linear_extension ::
  "(('i, 'r::comm_ring_1) element \<Rightarrow> ('k, 'r) element) \<Rightarrow> bool" where
  "linear_extension f = (\<forall>x k. coeff (f x) k = coeff (module_morphism (\<lambda>i. f (monomial i)) x) k)"

definition coassociative ::
  "(('i, 'r::comm_ring_1) element \<Rightarrow> ('i \<times> 'i, 'r) element) \<Rightarrow> bool" where
  "coassociative f =
     (\<forall>i k. coeff (coproduct_tensor_id f (f (monomial i))) k
            = coeff (id_tensor_coproduct f (f (monomial i))) k)"

section \<open>Algebras with basis (algebras\_with\_basis.py)\<close>

text \<open>
  A parent in \<open>AlgebrasWithBasis\<close>, as far as the category's methods read it: the attribute
  \<open>one_basis\<close>, whose method returns the index of the one, and \<open>product_on_basis\<close>.
  The source's variable \<open>module\<close> is \<open>factor\<close> here, \<open>module\<close> being a constant of
  the library.
\<close>

record ('i, 'r) algebra_with_basis =
  one_basis :: "'i attribute"
  product_on_basis :: "'i \<Rightarrow> 'i \<Rightarrow> ('i, 'r) element"

text \<open>\<open>hasattr(module, "one_basis")\<close>.\<close>

definition hasattr_one_basis :: "('i, 'r) algebra_with_basis \<Rightarrow> bool" where
  "hasattr_one_basis factor = (one_basis factor \<noteq> Absent)"

text \<open>
  The call \<open>module.one_basis()\<close>: reading a missing attribute raises \<open>AttributeError\<close>,
  calling the value \<open>NotImplemented\<close> raises \<open>TypeError\<close>.
\<close>

definition call_one_basis :: "('i, 'r) algebra_with_basis \<Rightarrow> py_error + 'i" where
  "call_one_basis factor =
     (case one_basis factor of
        Absent \<Rightarrow> Inl AttributeError
      | NotImplemented \<Rightarrow> Inl TypeError
      | Method i \<Rightarrow> Inr i)"

text \<open>
  Modelled from the spec: the product \<open>*\<close> of two elements of an algebra with basis is not
  among the sources; it is the "multiplication via linear extension of a product-on-basis".
\<close>

definition mult ::
  "('i, 'r::comm_ring_1) algebra_with_basis \<Rightarrow> ('i, 'r) element \<Rightarrow> ('i, 'r) element
   \<Rightarrow> ('i, 'r) element" where
  "mult factor x y =
     linear_combination
       (concat (map (\<lambda>(i, c). map (\<lambda>(j, d). (product_on_basis factor i j, c * d)) y) x))"

text \<open>\<open>TensorProducts.ParentMethods.one_basis\<close> (lines 307 to 337).\<close>

definition TensorProducts_one_basis ::
  "('i, 'r) algebra_with_basis list \<Rightarrow> py_error + 'i list" where
  "TensorProducts_one_basis sets =
     (if list_all (\<lambda>factor. hasattr_one_basis factor) sets
      then map_result call_one_basis sets
      else Inl NotImplementedError)"

text \<open>
  Modelled from the spec: the attribute \<open>one\<close> of the tensor product is not among the
  sources; it is the basis element indexed by \<open>one_basis()\<close>, as the doctest of
  \<open>one_basis\<close> shows (\<open>B.one()\<close> is \<open>B[word: ] # B[word: ] # B[word: ]\<close>).
\<close>

definition TensorProducts_one ::
  "('i, 'r::comm_ring_1) algebra_with_basis list \<Rightarrow> py_error + ('i list, 'r) element" where
  "TensorProducts_one sets =
     (case TensorProducts_one_basis sets of Inl e \<Rightarrow> Inl e | Inr t \<Rightarrow> Inr (monomial t))"

text \<open>\<open>TensorProducts.ParentMethods.product_on_basis\<close> (lines 339 to 369).\<close>

definition TensorProducts_product_on_basis ::
  "('i, 'r::comm_ring_1) algebra_with_basis list \<Rightarrow> 'i list \<Rightarrow> 'i list
   \<Rightarrow> ('i list, 'r) element" where
  "TensorProducts_product_on_basis sets t1 t2 =
     tensor (map (\<lambda>(factor, x1, x2). Atomic (mult factor (monomial x1) (monomial x2)))
                 (zip sets (zip t1 t2)))"

text \<open>
  A parent in \<open>AlgebrasWithBasis\<close> that is the parent of an element or a factor of a
  Cartesian product: an algebra given by its own attributes, or a tensor product of such
  algebras, whose \<open>one_basis\<close> is the method \<open>TensorProducts.ParentMethods.one_basis\<close> of
  this file and whose basis is indexed by tuples. The \<open>one_basis\<close> method of the first
  kind returns an index when it is implemented; the method of the second kind calls the
  factors' and raises when one of them does, as the comment at lines 331 to 333 says.
\<close>

datatype 'i key = Index 'i | Tuple "'i list"

datatype ('i, 'r) parent =
    Plain "('i, 'r) algebra_with_basis"
  | TensorProduct "('i, 'r) algebra_with_basis list"

text \<open>
  \<open>hasattr(module, "one_basis")\<close>, \<open>module.one_basis is NotImplemented\<close> and the call
  \<open>module.one_basis()\<close> for such a parent. The class of a tensor product defines the
  method, so the attribute is there and is not \<open>NotImplemented\<close>, whatever the factors
  provide; the call runs lines 334 to 337.
\<close>

fun parent_hasattr_one_basis :: "('i, 'r) parent \<Rightarrow> bool" where
  "parent_hasattr_one_basis (Plain factor) = hasattr_one_basis factor"
| "parent_hasattr_one_basis (TensorProduct sets) = True"

fun parent_one_basis_is_NotImplemented :: "('i, 'r) parent \<Rightarrow> bool" where
  "parent_one_basis_is_NotImplemented (Plain factor) = (one_basis factor = NotImplemented)"
| "parent_one_basis_is_NotImplemented (TensorProduct sets) = False"

fun parent_call_one_basis :: "('i, 'r) parent \<Rightarrow> py_error + 'i key" where
  "parent_call_one_basis (Plain factor) =
     (case call_one_basis factor of Inl e \<Rightarrow> Inl e | Inr i \<Rightarrow> Inr (Index i))"
| "parent_call_one_basis (TensorProduct sets) =
     (case TensorProducts_one_basis sets of Inl e \<Rightarrow> Inl e | Inr t \<Rightarrow> Inr (Tuple t))"

text \<open>
  \<open>ElementMethods.__invert__\<close> (lines 158 to 198). \<open>ring_invert\<close> is the operation
  \<open>~\<close> of the coefficients, which raises for a coefficient without an inverse.
  \<open>monomial_coefficients(copy=False)\<close> is the dictionary of \<open>self\<close> itself. The method
  returns or raises, which is the first component, and leaves \<open>self\<close> with the dictionary
  of the second component: no statement of the body assigns to \<open>mcs\<close>.
\<close>

definition invert ::
  "('r \<Rightarrow> py_error + 'r) \<Rightarrow> ('i, 'r::comm_ring_1) parent \<Rightarrow> ('i key, 'r) element
   \<Rightarrow> (py_error + ('i key, 'r) element) \<times> ('i key, 'r) element" where
  "invert ring_invert parent self =
     (let mcs = self in
      (case parent_call_one_basis parent of
         Inl e \<Rightarrow> Inl e
       | Inr one \<Rightarrow>
           (if length mcs = 1 \<and> map_of mcs one \<noteq> None then
              (case ring_invert (the (map_of mcs one)) of
                 Inl e \<Rightarrow> Inl e
               | Inr c \<Rightarrow> Inr (term_elt one c))
            else Inl ValueError),
       mcs))"





text \<open>
  \<open>CartesianProducts.ParentMethods.one\<close> (lines 260 to 276). The lazy attribute is one
  of two bound methods.
\<close>

datatype one_method = Bound_one_from_cartesian_product_of_one_basis | Bound_one_generic

definition CartesianProducts_one :: "('i, 'r) parent list \<Rightarrow> one_method" where
  "CartesianProducts_one sets =
     (if list_all (\<lambda>factor. parent_hasattr_one_basis factor
                            \<and> \<not> parent_one_basis_is_NotImplemented factor) sets
      then Bound_one_from_cartesian_product_of_one_basis
      else Bound_one_generic)"

text \<open>
  Modelled from the spec: the "category-composition mechanism" is not among the sources.
  These are the categories that the doctests of \<open>extra_super_categories\<close> name:
  \<open>C.CartesianProducts()\<close> and \<open>C.TensorProducts()\<close> are the categories built over
  \<open>C\<close>, and \<open>base_category\<close> returns the category they were built over.
  \<open>ModulesWithBasis\<close> over a field prints as "vector spaces with basis".
\<close>

datatype 'ring category =
    Algebras 'ring
  | ModulesWithBasis 'ring
  | AlgebrasWithBasis 'ring
  | CartesianProductsOf "'ring category"
  | TensorProductsOf "'ring category"

datatype 'ring construction_category =
    CartesianProducts "'ring category"
  | TensorProducts "'ring category"

fun base_category :: "'ring construction_category \<Rightarrow> 'ring category" where
  "base_category (CartesianProducts c) = c"
| "base_category (TensorProducts c) = c"

text \<open>
  \<open>CartesianProducts.extra_super_categories\<close> (lines 210 to 224) and
  \<open>TensorProducts.extra_super_categories\<close> (lines 288 to 300).
\<close>

definition CartesianProducts_extra_super_categories ::
  "'ring construction_category \<Rightarrow> 'ring category list" where
  "CartesianProducts_extra_super_categories self = [base_category self]"

definition TensorProducts_extra_super_categories ::
  "'ring construction_category \<Rightarrow> 'ring category list" where
  "TensorProducts_extra_super_categories self = [base_category self]"

text \<open>
  Modelled from the spec: the framework "merges super-categories and axioms into a single
  effective interface set"; this merge is not among the sources. The super-categories of a
  category built by a construction are what the \<open>extra_super_categories\<close> of its class
  returns, followed by the categories that the framework derives from the construction
  (\<open>default_super_categories\<close>, a parameter); the doctests of the two methods print such
  lists. The effective interface of the category collects the methods, that is the generic
  algorithms, of all its super-categories (\<open>methods\<close>, a parameter).
\<close>

fun extra_super_categories :: "'ring construction_category \<Rightarrow> 'ring category list" where
  "extra_super_categories (CartesianProducts c) =
     CartesianProducts_extra_super_categories (CartesianProducts c)"
| "extra_super_categories (TensorProducts c) =
     TensorProducts_extra_super_categories (TensorProducts c)"

definition super_categories ::
  "('ring construction_category \<Rightarrow> 'ring category list) \<Rightarrow> 'ring construction_category
   \<Rightarrow> 'ring category list" where
  "super_categories default_super_categories self =
     extra_super_categories self @ default_super_categories self"

definition effective_interface ::
  "('ring category \<Rightarrow> 'm set) \<Rightarrow> ('ring construction_category \<Rightarrow> 'ring category list)
   \<Rightarrow> 'ring construction_category \<Rightarrow> 'm set" where
  "effective_interface methods default_super_categories self =
     (\<Union>c\<in>set (super_categories default_super_categories self). methods c)"

section \<open>Example parents\<close>

text \<open>
  The parents of the doctests: the group algebra of a group, whose coproduct sends a group
  element \<open>g\<close> to \<open>g \<otimes> g\<close> and whose counit sends it to one; a realization of the same
  coalgebra that only provides the morphisms by coercion; and the free algebra on an
  alphabet over the rationals, whose basis is indexed by words and whose one is indexed by
  the empty word.
\<close>

definition group_coalgebra :: "(nat, int) coalgebra_with_basis" where
  "group_coalgebra =
     \<lparr>coproduct_on_basis = Some (\<lambda>g. [((g, g), 1)]),
      coproduct_by_coercion = None,
      counit_on_basis = Some (\<lambda>g. 1),
      counit_by_coercion = None\<rparr>"

definition realization_coalgebra :: "(nat, int) coalgebra_with_basis" where
  "realization_coalgebra =
     \<lparr>coproduct_on_basis = None,
      coproduct_by_coercion = Some (module_morphism (\<lambda>g. [((g, g), 1)])),
      counit_on_basis = None,
      counit_by_coercion = Some (module_morphism_to_ring (\<lambda>g. 1))\<rparr>"

text \<open>
  A coalgebra in which \<open>B[0]\<close> is group-like and every other basis element is primitive,
  as the empty partition and the power sums are among the symmetric functions of the
  doctests of \<open>coproduct_iterated\<close>.
\<close>

definition primitive_on_basis :: "nat \<Rightarrow> (nat \<times> nat, int) element" where
  "primitive_on_basis n = (if n = 0 then [((0, 0), 1)] else [((n, 0), 1), ((0, n), 1)])"

definition primitive_coalgebra :: "(nat, int) coalgebra_with_basis" where
  "primitive_coalgebra =
     \<lparr>coproduct_on_basis = Some primitive_on_basis,
      coproduct_by_coercion = None,
      counit_on_basis = Some (\<lambda>n. if n = 0 then 1 else 0),
      counit_by_coercion = None\<rparr>"

definition free_algebra :: "(string, rat) algebra_with_basis" where
  "free_algebra =
     \<lparr>one_basis = Method [], product_on_basis = (\<lambda>w1 w2. monomial (w1 @ w2))\<rparr>"

definition algebra_without_one_basis :: "(string, rat) algebra_with_basis" where
  "algebra_without_one_basis =
     \<lparr>one_basis = NotImplemented, product_on_basis = (\<lambda>w1 w2. monomial (w1 @ w2))\<rparr>"

definition module_without_attribute :: "(string, rat) algebra_with_basis" where
  "module_without_attribute =
     \<lparr>one_basis = Absent, product_on_basis = (\<lambda>w1 w2. monomial (w1 @ w2))\<rparr>"

text \<open>
  The super-categories that the framework derives in the doctests of
  \<open>extra_super_categories\<close> (lines 219 to 222 and 295 to 298), and the methods that
  \<open>AlgebrasWithBasis\<close> defines in this file.
\<close>

fun doctest_default_super_categories ::
  "string construction_category \<Rightarrow> string category list" where
  "doctest_default_super_categories (CartesianProducts (AlgebrasWithBasis R)) =
     [CartesianProductsOf (Algebras R), CartesianProductsOf (ModulesWithBasis R)]"
| "doctest_default_super_categories (TensorProducts (AlgebrasWithBasis R)) =
     [TensorProductsOf (Algebras R), TensorProductsOf (ModulesWithBasis R)]"
| "doctest_default_super_categories self = []"

fun doctest_methods :: "string category \<Rightarrow> string set" where
  "doctest_methods (AlgebrasWithBasis R) = {''one'', ''hochschild_complex'', ''__invert__''}"
| "doctest_methods c = {}"

text \<open>The operation \<open>~\<close> of the rational field.\<close>

definition rational_invert :: "rat \<Rightarrow> py_error + rat" where
  "rational_invert c = (if c = 0 then Inl ZeroDivisionError else Inr (inverse c))"

section \<open>Calls of \<open>one_basis\<close> on the factors\<close>

lemma call_one_basis_simps:
  "one_basis a = Method i \<Longrightarrow> call_one_basis a = Inr i"
  "one_basis a = NotImplemented \<Longrightarrow> call_one_basis a = Inl TypeError"
  "one_basis a = Absent \<Longrightarrow> call_one_basis a = Inl AttributeError"
  by (simp_all add: call_one_basis_def)

lemma map_result_call_one_basis_Method:
  "map one_basis sets = map Method ones \<Longrightarrow> map_result call_one_basis sets = Inr ones"
proof (induction sets arbitrary: ones)
  case Nil
  then show ?case by simp
next
  case (Cons a sets)
  then obtain i rest where "ones = i # rest" "one_basis a = Method i" "map one_basis sets = map Method rest"
    by (cases ones) auto
  then show ?case using Cons.IH [of rest] by (simp add: call_one_basis_simps)
qed

lemma map_result_call_one_basis_present:
  "\<forall>factor\<in>set sets. one_basis factor \<noteq> Absent \<Longrightarrow>
   map_result call_one_basis sets = Inl e \<Longrightarrow>
   e = TypeError \<and> (\<exists>factor\<in>set sets. one_basis factor = NotImplemented)"
  by (induction sets) (auto simp: call_one_basis_def split: attribute.splits sum.splits)

lemma map_result_call_one_basis_NotImplemented:
  "\<forall>factor\<in>set sets. one_basis factor \<noteq> Absent \<Longrightarrow>
   \<exists>factor\<in>set sets. one_basis factor = NotImplemented \<Longrightarrow>
   map_result call_one_basis sets = Inl TypeError"
proof (induction sets)
  case Nil
  then show ?case by simp
next
  case (Cons a sets)
  show ?case
  proof (cases "one_basis a")
    case Absent
    then show ?thesis using Cons.prems by simp
  next
    case NotImplemented
    then show ?thesis by (simp add: call_one_basis_simps)
  next
    case (Method i)
    then have "\<exists>factor\<in>set sets. one_basis factor = NotImplemented"
      using Cons.prems by auto
    then have "map_result call_one_basis sets = Inl TypeError"
      using Cons by simp
    then show ?thesis using Method by (simp add: call_one_basis_simps)
  qed
qed





section \<open>Linear extension\<close>

text \<open>
  The pairing of an element with a function \<open>g\<close> on the basis is the linear extension of
  \<open>g\<close> to the base ring. Every constructor of elements commutes with it, and two elements
  with the same coefficients have the same pairing with every \<open>g\<close>.
\<close>

lemma to_ring_Nil [simp]: "module_morphism_to_ring g [] = 0"
  by (simp add: module_morphism_to_ring_def)

lemma to_ring_Cons [simp]:
  "module_morphism_to_ring g ((k, c) # x) = c * g k + module_morphism_to_ring g x"
  by (simp add: module_morphism_to_ring_def)

lemma to_ring_append [simp]:
  "module_morphism_to_ring g (x @ y) = module_morphism_to_ring g x + module_morphism_to_ring g y"
  by (simp add: module_morphism_to_ring_def)

lemma to_ring_zero [simp]: "module_morphism_to_ring (\<lambda>k. 0) x = 0"
  by (induction x) auto

lemma to_ring_add:
  "module_morphism_to_ring (\<lambda>k. u k + v k) x
   = module_morphism_to_ring u x + module_morphism_to_ring v x"
  by (induction x) (auto simp: algebra_simps)

lemma to_ring_scale:
  "module_morphism_to_ring (\<lambda>k. a * u k) x = a * module_morphism_to_ring u x"
  by (induction x) (auto simp: algebra_simps)

lemma to_ring_scale_right:
  "module_morphism_to_ring (\<lambda>k. u k * a) x = module_morphism_to_ring u x * a"
  by (induction x) (auto simp: algebra_simps)

lemma to_ring_add_term [simp]:
  "module_morphism_to_ring g (add_term k c x) = module_morphism_to_ring g x + c * g k"
proof (induction x)
  case Nil
  then show ?case by simp
next
  case (Cons a x)
  obtain j d where a: "a = (j, d)" by (cases a)
  have z: "d + c = 0 \<Longrightarrow> d * g k + c * g k = 0"
    by (metis distrib_right mult_zero_left)
  show ?case
  proof (cases "j = k")
    case True
    then show ?thesis using a z by (auto simp: algebra_simps)
  next
    case False
    then show ?thesis using a Cons by (simp add: algebra_simps)
  qed
qed

lemma to_ring_fold_add_term:
  "module_morphism_to_ring g (fold (\<lambda>(k, c). add_term k (a * c)) y acc)
   = module_morphism_to_ring g acc + a * module_morphism_to_ring g y"
  by (induction y arbitrary: acc) (auto simp: algebra_simps)

lemma to_ring_axpy [simp]:
  "module_morphism_to_ring g (axpy a y acc)
   = module_morphism_to_ring g acc + a * module_morphism_to_ring g y"
  by (simp add: axpy_def to_ring_fold_add_term)

lemma to_ring_fold_axpy:
  "module_morphism_to_ring g (fold (\<lambda>(y, a). axpy a y) ts acc)
   = module_morphism_to_ring g acc + module_morphism_to_ring (module_morphism_to_ring g) ts"
  by (induction ts arbitrary: acc) (auto simp: algebra_simps)

lemma to_ring_linear_combination [simp]:
  "module_morphism_to_ring g (linear_combination ts)
   = module_morphism_to_ring (module_morphism_to_ring g) ts"
  by (simp add: linear_combination_def to_ring_fold_axpy)

lemma to_ring_map:
  "module_morphism_to_ring h (map (\<lambda>(i, c). (F i, c)) x) = module_morphism_to_ring (\<lambda>i. h (F i)) x"
  by (induction x) auto

lemma to_ring_module_morphism [simp]:
  "module_morphism_to_ring g (module_morphism F x)
   = module_morphism_to_ring (\<lambda>i. module_morphism_to_ring g (F i)) x"
  by (simp add: module_morphism_def to_ring_map)

lemma to_ring_monomial [simp]: "module_morphism_to_ring g (monomial k) = g k"
  by (simp add: monomial_def)

lemma to_ring_sum_of_terms [simp]:
  "module_morphism_to_ring g (sum_of_terms ts) = module_morphism_to_ring g ts"
proof -
  have "module_morphism_to_ring g (fold (\<lambda>(k, c). add_term k c) ts acc)
        = module_morphism_to_ring g acc + module_morphism_to_ring g ts" for acc
    by (induction ts arbitrary: acc) (auto simp: algebra_simps)
  then show ?thesis by (simp add: sum_of_terms_def)
qed

lemma to_ring_tensor2 [simp]:
  "module_morphism_to_ring g (tensor2 u v)
   = module_morphism_to_ring (\<lambda>k. module_morphism_to_ring (\<lambda>l. g (k @ l)) v) u"
proof -
  have inner: "module_morphism_to_ring g (map (\<lambda>(l, d). (k @ l, c * d)) v)
        = c * module_morphism_to_ring (\<lambda>l. g (k @ l)) v" for k c
    by (induction v) (auto simp: algebra_simps)
  have "module_morphism_to_ring g (concat (map (\<lambda>(k, c). map (\<lambda>(l, d). (k @ l, c * d)) v) u))
        = module_morphism_to_ring (\<lambda>k. module_morphism_to_ring (\<lambda>l. g (k @ l)) v) u"
    by (induction u) (auto simp: inner)
  then show ?thesis by (simp add: tensor2_def)
qed

lemma to_ring_tuple_keys [simp]:
  "module_morphism_to_ring g (map (\<lambda>(i, c). ([i], c)) x) = module_morphism_to_ring (\<lambda>i. g [i]) x"
  "module_morphism_to_ring g (map (\<lambda>((a, b), c). ([a, b], c)) z)
     = module_morphism_to_ring (\<lambda>(a, b). g [a, b]) z"
proof -
  show "module_morphism_to_ring g (map (\<lambda>(i, c). ([i], c)) x)
        = module_morphism_to_ring (\<lambda>i. g [i]) x"
    by (induction x) auto
  show "module_morphism_to_ring g (map (\<lambda>((a, b), c). ([a, b], c)) z)
     = module_morphism_to_ring (\<lambda>(a, b). g [a, b]) z"
    by (induction z) auto
qed

lemma coeff_to_ring: "coeff x k = module_morphism_to_ring (\<lambda>j. if j = k then 1 else 0) x"
  by (induction x) auto

lemma to_ring_as_sum:
  "finite S \<Longrightarrow> fst ` set x \<subseteq> S \<Longrightarrow>
   module_morphism_to_ring g x = (\<Sum>k\<in>S. coeff x k * g k)"
proof (induction x)
  case Nil
  then show ?case by simp
next
  case (Cons a x)
  obtain j d where a: "a = (j, d)" by (cases a)
  have j: "j \<in> S" using Cons.prems a by simp
  have "(\<Sum>k\<in>S. coeff (a # x) k * g k)
        = (\<Sum>k\<in>S. (if j = k then d else 0) * g k) + (\<Sum>k\<in>S. coeff x k * g k)"
    by (simp add: a algebra_simps sum.distrib)
  also have "(\<Sum>k\<in>S. (if j = k then d else 0) * g k) = d * g j"
    using Cons.prems(1) j by (simp add: if_distrib [of "\<lambda>v. v * _"] cong: if_cong)
  finally show ?case using Cons a by simp
qed

lemma to_ring_cong_coeff:
  assumes "\<And>k. coeff x k = coeff y k"
  shows "module_morphism_to_ring g x = module_morphism_to_ring g y"
proof -
  let ?S = "fst ` set x \<union> fst ` set y"
  have "module_morphism_to_ring g x = (\<Sum>k\<in>?S. coeff x k * g k)"
    by (rule to_ring_as_sum) auto
  also have "\<dots> = (\<Sum>k\<in>?S. coeff y k * g k)" using assms by simp
  also have "\<dots> = module_morphism_to_ring g y"
    by (rule to_ring_as_sum [symmetric]) auto
  finally show ?thesis .
qed

lemma to_ring_cong_support:
  assumes "\<And>k. coeff x k \<noteq> 0 \<Longrightarrow> g k = h k"
  shows "module_morphism_to_ring g x = module_morphism_to_ring h x"
proof -
  have "module_morphism_to_ring g x = (\<Sum>k\<in>fst ` set x. coeff x k * g k)"
    by (rule to_ring_as_sum) auto
  also have "\<dots> = (\<Sum>k\<in>fst ` set x. coeff x k * h k)"
  proof (rule sum.cong)
    fix k
    show "coeff x k * g k = coeff x k * h k"
      using assms [of k] by (cases "coeff x k = 0") auto
  qed simp
  also have "\<dots> = module_morphism_to_ring h x"
    by (rule to_ring_as_sum [symmetric]) auto
  finally show ?thesis .
qed

lemma to_ring_swap:
  "module_morphism_to_ring (\<lambda>i. module_morphism_to_ring (\<lambda>j. f i j) y) x
   = module_morphism_to_ring (\<lambda>j. module_morphism_to_ring (\<lambda>i. f i j) x) y"
proof (induction x)
  case Nil
  show ?case by simp
next
  case (Cons a x)
  obtain i c where a: "a = (i, c)" by (cases a)
  show ?case using Cons by (simp add: a to_ring_add to_ring_scale)
qed

lemma coeff_module_morphism:
  "coeff (module_morphism F x) k = (\<Sum>(i, c)\<leftarrow>x. c * coeff (F i) k)"
  by (simp add: coeff_to_ring) (simp add: module_morphism_to_ring_def)

section \<open>Sums of monomials\<close>






section \<open>Tensor products of elements of the factors\<close>

lemma to_ring_indicator:
  "module_morphism_to_ring (\<lambda>i. if i = a then c else 0) y = coeff y a * c"
  by (induction y) (auto simp: algebra_simps)

lemma coeff_tensor2_Atomic_Cons:
  "coeff (tensor2 (tuple_keys (Atomic y)) t) (a # z) = coeff y a * coeff t z"
proof -
  have "coeff (tensor2 (tuple_keys (Atomic y)) t) (a # z)
        = module_morphism_to_ring
            (\<lambda>i. module_morphism_to_ring (\<lambda>l. if [i] @ l = a # z then 1 else 0) t) y"
    by (simp only: coeff_to_ring to_ring_tensor2 tuple_keys.simps to_ring_tuple_keys)
  also have "(\<lambda>i. module_morphism_to_ring (\<lambda>l. if [i] @ l = a # z then 1 else 0) t)
        = (\<lambda>i. if i = a then coeff t z else 0)"
    by (auto simp: fun_eq_iff coeff_to_ring)
  finally show ?thesis by (simp add: to_ring_indicator)
qed

lemma coeff_tensor2_Atomic_Nil:
  "coeff (tensor2 (tuple_keys (Atomic y)) t) [] = 0"
proof -
  have "coeff (tensor2 (tuple_keys (Atomic y)) t) []
        = module_morphism_to_ring
            (\<lambda>i. module_morphism_to_ring (\<lambda>l. if [i] @ l = [] then 1 else 0) t) y"
    by (simp only: coeff_to_ring to_ring_tensor2 tuple_keys.simps to_ring_tuple_keys)
  then show ?thesis by simp
qed

lemma coeff_tensor_Atomic:
  "coeff (tensor (map Atomic ys)) z
   = (if length z = length ys then prod_list (map (\<lambda>(y, k). coeff y k) (zip ys z)) else 0)"
proof (induction ys arbitrary: z)
  case Nil
  show ?case by (auto simp: monomial_def)
next
  case (Cons y ys)
  show ?case
  proof (cases z)
    case Nil
    then show ?thesis using coeff_tensor2_Atomic_Nil [of y "tensor (map Atomic ys)"]
      by (simp del: tuple_keys.simps)
  next
    case z: (Cons a z')
    show ?thesis
      using Cons.IH [of z'] z coeff_tensor2_Atomic_Cons [of y "tensor (map Atomic ys)" a z']
      by (simp del: tuple_keys.simps)
  qed
qed

lemma coeff_mult_monomial:
  "coeff (mult factor (monomial x1) (monomial x2)) k = coeff (product_on_basis factor x1 x2) k"
  unfolding coeff_to_ring by (simp add: mult_def monomial_def)

section \<open>The naive iterated coproduct\<close>

lemma to_ring_tensor_pair [simp]:
  "module_morphism_to_ring g (tensor [u, v])
   = module_morphism_to_ring
       (\<lambda>k. module_morphism_to_ring (\<lambda>l. g (k @ l)) (tuple_keys v)) (tuple_keys u)"
  by (simp del: tuple_keys.simps)

lemma to_ring_coproduct_on_first_factor [simp]:
  "module_morphism_to_ring g (coproduct_on_first_factor f y)
   = module_morphism_to_ring
       (\<lambda>k. case k of
               [] \<Rightarrow> 0
             | i # rest \<Rightarrow> module_morphism_to_ring (\<lambda>(a, b). g (a # b # rest)) (f (monomial i))) y"
proof -
  have "(\<lambda>k. module_morphism_to_ring g
               (case k of
                  [] \<Rightarrow> []
                | i # rest \<Rightarrow> tensor [Tensor2 (f (monomial i)), Tensor (monomial rest)]))
        = (\<lambda>k. case k of
               [] \<Rightarrow> 0
             | i # rest \<Rightarrow> module_morphism_to_ring (\<lambda>(a, b). g (a # b # rest)) (f (monomial i)))"
    by (auto simp: fun_eq_iff split: list.splits)
  then show ?thesis by (simp add: coproduct_on_first_factor_def)
qed

lemma naive_linear:
  "module_morphism_to_ring g (naive_coproduct_iterated f n x)
   = module_morphism_to_ring
       (\<lambda>i. module_morphism_to_ring g (naive_coproduct_iterated f n (monomial i))) x"
proof (induction n arbitrary: g)
  case 0
  show ?case by (simp add: monomial_def)
next
  case (Suc n)
  show ?case
    by (simp only: naive_coproduct_iterated.simps to_ring_coproduct_on_first_factor)
       (rule Suc.IH)
qed

lemma naive_support:
  "length k \<noteq> Suc n \<Longrightarrow> coeff (naive_coproduct_iterated f n x) k = 0"
proof (induction n arbitrary: k)
  case 0
  have "(\<lambda>i. if [i] = k then 1 else 0) = (\<lambda>i. 0::'b)"
    using 0 by (auto simp: fun_eq_iff)
  then show ?case by (simp add: coeff_to_ring)
next
  case (Suc n)
  let ?h = "\<lambda>k'. case k' of
               [] \<Rightarrow> 0
             | i # rest \<Rightarrow>
                 module_morphism_to_ring (\<lambda>(a, b). if a # b # rest = k then 1 else 0)
                   (f (monomial i))"
  have "coeff (naive_coproduct_iterated f (Suc n) x) k
        = module_morphism_to_ring ?h (naive_coproduct_iterated f n x)"
    by (simp only: coeff_to_ring naive_coproduct_iterated.simps
        to_ring_coproduct_on_first_factor)
  also have "\<dots> = module_morphism_to_ring (\<lambda>k'. 0) (naive_coproduct_iterated f n x)"
  proof (rule to_ring_cong_support)
    fix k' assume "coeff (naive_coproduct_iterated f n x) k' \<noteq> 0"
    then have len: "length k' = Suc n" using Suc.IH [of k'] by auto
    then obtain i rest where k': "k' = i # rest" by (cases k') auto
    have "(\<lambda>(a, b). if a # b # rest = k then 1 else 0) = (\<lambda>p. 0::'b)"
      using len k' Suc.prems by (auto simp: fun_eq_iff)
    then show "?h k' = 0" by (simp add: k')
  qed
  finally show ?case by simp
qed

subsection \<open>Coassociativity\<close>

lemma to_ring_case_prod [simp]:
  "module_morphism_to_ring g (case p of (a, b) \<Rightarrow> F a b)
   = (case p of (a, b) \<Rightarrow> module_morphism_to_ring g (F a b))"
  by (cases p) simp

lemma to_ring_coproduct_tensor_id:
  "module_morphism_to_ring g (coproduct_tensor_id f z)
   = module_morphism_to_ring
       (\<lambda>(a, b). module_morphism_to_ring (\<lambda>(a1, a2). g [a1, a2, b]) (f (monomial a))) z"
  by (simp add: coproduct_tensor_id_def)

lemma to_ring_id_tensor_coproduct:
  "module_morphism_to_ring g (id_tensor_coproduct f z)
   = module_morphism_to_ring
       (\<lambda>(a, b). module_morphism_to_ring (\<lambda>(b1, b2). g [a, b1, b2]) (f (monomial b))) z"
  by (simp add: id_tensor_coproduct_def)

lemma coassociative_to_ring:
  assumes "coassociative f"
  shows "module_morphism_to_ring
           (\<lambda>(a, b). module_morphism_to_ring (\<lambda>(a1, a2). h a1 a2 b) (f (monomial a)))
           (f (monomial i))
         = module_morphism_to_ring
           (\<lambda>(a, b). module_morphism_to_ring (\<lambda>(b1, b2). h a b1 b2) (f (monomial b)))
           (f (monomial i))"
proof -
  let ?g = "\<lambda>k. case k of [x, y, z] \<Rightarrow> h x y z | _ \<Rightarrow> 0"
  have "module_morphism_to_ring ?g (coproduct_tensor_id f (f (monomial i)))
        = module_morphism_to_ring ?g (id_tensor_coproduct f (f (monomial i)))"
    using assms by (intro to_ring_cong_coeff) (simp add: coassociative_def)
  then show ?thesis
    by (simp add: to_ring_coproduct_tensor_id to_ring_id_tensor_coproduct)
qed

lemma naive_one_monomial:
  "module_morphism_to_ring g (naive_coproduct_iterated f (Suc 0) (monomial i))
   = module_morphism_to_ring (\<lambda>(a, b). g [a, b]) (f (monomial i))"
  by (simp add: monomial_def [of i])

text \<open>\<open>(id \<otimes> \<Delta>\<^sup>q) \<circ> \<Delta> = \<Delta>\<^sup>q\<^sup>+\<^sup>1\<close> on a basis element.\<close>

lemma naive_right:
  assumes "coassociative f"
  shows "module_morphism_to_ring
           (\<lambda>(a, b). module_morphism_to_ring (\<lambda>r. g (a # r))
                        (naive_coproduct_iterated f q (monomial b)))
           (f (monomial i))
         = module_morphism_to_ring g (naive_coproduct_iterated f (Suc q) (monomial i))"
proof (induction q arbitrary: g)
  case 0
  show ?case by (simp add: monomial_def [of i])
next
  case (Suc q)
  let ?g' = "\<lambda>k. case k of
                   a # j # r \<Rightarrow>
                     module_morphism_to_ring (\<lambda>(b1, b2). g (a # b1 # b2 # r)) (f (monomial j))
                 | _ \<Rightarrow> 0"
  have "module_morphism_to_ring
           (\<lambda>(a, b). module_morphism_to_ring (\<lambda>r. ?g' (a # r))
                        (naive_coproduct_iterated f q (monomial b)))
           (f (monomial i))
         = module_morphism_to_ring ?g' (naive_coproduct_iterated f (Suc q) (monomial i))"
    by (rule Suc.IH)
  then show ?case
    by (simp add: coassociative_to_ring [OF assms] cong: list.case_cong)
qed

text \<open>\<open>(\<Delta>\<^sup>p \<otimes> \<Delta>\<^sup>q) \<circ> \<Delta> = \<Delta>\<^sup>p\<^sup>+\<^sup>q\<^sup>+\<^sup>1\<close> on a basis element.\<close>

lemma naive_split:
  assumes "coassociative f"
  shows "module_morphism_to_ring
           (\<lambda>(a, b). module_morphism_to_ring
                        (\<lambda>l. module_morphism_to_ring (\<lambda>r. g (l @ r))
                               (naive_coproduct_iterated f q (monomial b)))
                        (naive_coproduct_iterated f p (monomial a)))
           (f (monomial i))
         = module_morphism_to_ring g (naive_coproduct_iterated f (Suc (p + q)) (monomial i))"
proof (induction p arbitrary: g)
  case 0
  show ?case using naive_right [OF assms, of g q i]
    by (simp add: monomial_def [of "fst _"] case_prod_unfold)
next
  case (Suc p)
  let ?g' = "\<lambda>k. case k of
                   [] \<Rightarrow> 0
                 | j # t \<Rightarrow> module_morphism_to_ring (\<lambda>(a1, a2). g (a1 # a2 # t)) (f (monomial j))"
  have inner: "module_morphism_to_ring
                  (\<lambda>l. module_morphism_to_ring (\<lambda>r. g (l @ r))
                         (naive_coproduct_iterated f q (monomial b)))
                  (naive_coproduct_iterated f (Suc p) (monomial a))
               = module_morphism_to_ring
                  (\<lambda>l. module_morphism_to_ring (\<lambda>r. ?g' (l @ r))
                         (naive_coproduct_iterated f q (monomial b)))
                  (naive_coproduct_iterated f p (monomial a))" for a b
  proof -
    have "module_morphism_to_ring
            (\<lambda>l. module_morphism_to_ring (\<lambda>r. g (l @ r))
                   (naive_coproduct_iterated f q (monomial b)))
            (naive_coproduct_iterated f (Suc p) (monomial a))
          = module_morphism_to_ring
              (\<lambda>k. case k of
                      [] \<Rightarrow> 0
                    | j # t \<Rightarrow>
                        module_morphism_to_ring
                          (\<lambda>(a1, a2). module_morphism_to_ring (\<lambda>r. g (a1 # a2 # t @ r))
                                         (naive_coproduct_iterated f q (monomial b)))
                          (f (monomial j)))
              (naive_coproduct_iterated f p (monomial a))"
      by (simp cong: list.case_cong)
    also have "\<dots> = module_morphism_to_ring
                  (\<lambda>l. module_morphism_to_ring (\<lambda>r. ?g' (l @ r))
                         (naive_coproduct_iterated f q (monomial b)))
                  (naive_coproduct_iterated f p (monomial a))"
    proof (rule to_ring_cong_support)
      fix k assume "coeff (naive_coproduct_iterated f p (monomial a)) k \<noteq> 0"
      then have "length k = Suc p" using naive_support [of k p f "monomial a"] by auto
      then obtain j t where k: "k = j # t" by (cases k) auto
      have "module_morphism_to_ring
              (\<lambda>r. module_morphism_to_ring (\<lambda>(a1, a2). g (a1 # a2 # t @ r)) (f (monomial j)))
              (naive_coproduct_iterated f q (monomial b))
            = module_morphism_to_ring
              (\<lambda>(a1, a2). module_morphism_to_ring (\<lambda>r. g (a1 # a2 # t @ r))
                             (naive_coproduct_iterated f q (monomial b)))
              (f (monomial j))"
        using to_ring_swap [of "\<lambda>r (p :: 'a \<times> 'a). g (fst p # snd p # t @ r)"
                              "f (monomial j)" "naive_coproduct_iterated f q (monomial b)"]
        by (simp add: case_prod_unfold)
      then show "(case k of
                    [] \<Rightarrow> 0
                  | j # t \<Rightarrow>
                      module_morphism_to_ring
                        (\<lambda>(a1, a2). module_morphism_to_ring (\<lambda>r. g (a1 # a2 # t @ r))
                                       (naive_coproduct_iterated f q (monomial b)))
                        (f (monomial j)))
                 = module_morphism_to_ring (\<lambda>r. ?g' (k @ r))
                     (naive_coproduct_iterated f q (monomial b))"
        by (simp add: k)
    qed
    finally show ?thesis .
  qed
  have "module_morphism_to_ring
           (\<lambda>(a, b). module_morphism_to_ring
                        (\<lambda>l. module_morphism_to_ring (\<lambda>r. ?g' (l @ r))
                               (naive_coproduct_iterated f q (monomial b)))
                        (naive_coproduct_iterated f p (monomial a)))
           (f (monomial i))
         = module_morphism_to_ring ?g' (naive_coproduct_iterated f (Suc (p + q)) (monomial i))"
    by (rule Suc.IH)
  then show ?case
    by (simp only: inner) (simp cong: list.case_cong)
qed

section \<open>The balanced recursion\<close>

declare coproduct_iterated.simps [simp del]

lemma map_result_Inr:
  "(\<And>x. x \<in> set xs \<Longrightarrow> f x = Inr (g x)) \<Longrightarrow> map_result f xs = Inr (map g xs)"
  by (induction xs) auto

lemma apply_multilinear_morphism_Inr:
  assumes "\<And>a b. f (monomial a) (monomial b) = Inr (F a b)"
  shows "apply_multilinear_morphism f z
         = Inr (linear_combination (map (\<lambda>((a, b), c). (F a b, c)) z))"
proof -
  have "map_result (\<lambda>((a, b), c). case f (monomial a) (monomial b) of
                                     Inl e \<Rightarrow> Inl e
                                   | Inr y \<Rightarrow> Inr (y, c)) z
        = Inr (map (\<lambda>((a, b), c). (F a b, c)) z)"
    by (rule map_result_Inr) (auto simp: assms)
  then show ?thesis by (simp add: apply_multilinear_morphism_def)
qed

lemma to_ring_map_pair:
  "module_morphism_to_ring h (map (\<lambda>((a, b), c). (F a b, c)) z)
   = module_morphism_to_ring (\<lambda>(a, b). h (F a b)) z"
  by (induction z) auto

lemma linear_extension_to_ring:
  assumes "linear_extension f"
  shows "module_morphism_to_ring h (f x)
         = module_morphism_to_ring (\<lambda>i. module_morphism_to_ring h (f (monomial i))) x"
proof -
  have "module_morphism_to_ring h (f x)
        = module_morphism_to_ring h (module_morphism (\<lambda>i. f (monomial i)) x)"
    using assms by (intro to_ring_cong_coeff) (simp add: linear_extension_def)
  then show ?thesis by simp
qed

lemma coproduct_iterated_negative:
  "n < 0 \<Longrightarrow> coproduct_iterated parent n x = Inl ValueError"
  by (simp add: coproduct_iterated.simps [of parent n x])

lemma coproduct_iterated_0: "coproduct_iterated parent 0 x = Inr (Atomic x)"
  by (simp add: coproduct_iterated.simps [of parent 0 x])

lemma coproduct_iterated_1:
  "coproduct_iterated parent 1 x
   = (case element_coproduct parent x of Inl e \<Rightarrow> Inl e | Inr z \<Rightarrow> Inr (Tensor2 z))"
  by (simp add: coproduct_iterated.simps [of parent 1 x])

lemma coproduct_iterated_split:
  assumes "2 \<le> n"
    and "fn = (n - 1) div 2"
    and "cn = (if n mod 2 \<noteq> 0 then (n - 1) div 2 else n div 2)"
  shows "coproduct_iterated parent n x
         = (case element_coproduct parent x of
              Inl e \<Rightarrow> Inl e
            | Inr z \<Rightarrow>
                (case apply_multilinear_morphism
                        (\<lambda>a b. case coproduct_iterated parent fn a of
                                 Inl e \<Rightarrow> Inl e
                               | Inr u \<Rightarrow>
                                   (case coproduct_iterated parent cn b of
                                      Inl e \<Rightarrow> Inl e
                                    | Inr v \<Rightarrow> Inr (tensor [u, v]))) z of
                   Inl e \<Rightarrow> Inl e
                 | Inr y \<Rightarrow> Inr (Tensor y)))"
  using assms(1) unfolding assms(2,3)
  by (subst coproduct_iterated.simps) (simp add: Let_def)

lemma coproduct_iterated_None:
  assumes "coproduct parent = None" and "0 < n"
  shows "coproduct_iterated parent n x = Inl TypeError"
proof (cases "n = 1")
  case True
  then show ?thesis using assms by (simp add: coproduct_iterated_1 element_coproduct_def)
next
  case False
  then have "2 \<le> n" using assms by simp
  then show ?thesis using assms
    by (simp add: coproduct_iterated_split [OF _ refl refl] element_coproduct_def)
qed

lemma split_numbers:
  fixes n :: int
  assumes "2 \<le> n"
  defines "fn \<equiv> (n - 1) div 2"
  defines "cn \<equiv> (if n mod 2 \<noteq> 0 then (n - 1) div 2 else n div 2)"
  shows "0 \<le> fn" "0 \<le> cn" "nat fn < nat n" "nat cn < nat n" "Suc (nat fn + nat cn) = nat n"
proof -
  have s: "fn + cn + 1 = n" unfolding fn_def cn_def by presburger
  show f: "0 \<le> fn" using assms(1) unfolding fn_def by simp
  show c: "0 \<le> cn" using assms(1) unfolding cn_def by simp
  show "nat fn < nat n" using s f c by linarith
  show "nat cn < nat n" using s f c by linarith
  show "Suc (nat fn + nat cn) = nat n" using s f c by linarith
qed

lemma coproduct_iterated_returns:
  assumes "coproduct parent = Some f"
  shows "0 \<le> n \<Longrightarrow> \<exists>t. coproduct_iterated parent n x = Inr t"
proof (induction "nat n" arbitrary: n x rule: less_induct)
  case less
  consider "n = 0" | "n = 1" | "2 \<le> n" using less.prems by linarith
  then show ?case
  proof cases
    case 1
    then show ?thesis by (simp add: coproduct_iterated_0)
  next
    case 2
    then show ?thesis using assms
      by (simp add: coproduct_iterated_1 element_coproduct_def)
  next
    case 3
    define fn where "fn = (n - 1) div 2"
    define cn where "cn = (if n mod 2 \<noteq> 0 then (n - 1) div 2 else n div 2)"
    note nums = split_numbers [OF 3, folded fn_def cn_def]
    have "\<exists>t. coproduct_iterated parent fn (monomial a) = Inr t" for a
      using less.hyps [of fn "monomial a"] nums by simp
    then obtain U where U: "\<And>a. coproduct_iterated parent fn (monomial a) = Inr (U a)"
      by metis
    have "\<exists>t. coproduct_iterated parent cn (monomial b) = Inr t" for b
      using less.hyps [of cn "monomial b"] nums by simp
    then obtain V where V: "\<And>b. coproduct_iterated parent cn (monomial b) = Inr (V b)"
      by metis
    have am: "apply_multilinear_morphism
            (\<lambda>a b. case coproduct_iterated parent fn a of
                     Inl e \<Rightarrow> Inl e
                   | Inr u \<Rightarrow>
                       (case coproduct_iterated parent cn b of
                          Inl e \<Rightarrow> Inl e
                        | Inr v \<Rightarrow> Inr (tensor [u, v]))) (f x)
          = Inr (linear_combination (map (\<lambda>((a, b), c). (tensor [U a, V b], c)) (f x)))"
      by (rule apply_multilinear_morphism_Inr) (simp add: U V)
    have ec: "element_coproduct parent x = Inr (f x)"
      using assms by (simp add: element_coproduct_def)
    show ?thesis
      unfolding coproduct_iterated_split [OF 3 fn_def cn_def] ec sum.case am by simp
  qed
qed

lemma coproduct_iterated_naive:
  assumes cop: "coproduct parent = Some f"
    and lin: "linear_extension f"
    and co: "coassociative f"
  shows "0 \<le> n \<Longrightarrow>
         \<exists>t. coproduct_iterated parent n x = Inr t
             \<and> (\<forall>g. module_morphism_to_ring g (tuple_keys t)
                      = module_morphism_to_ring g (naive_coproduct_iterated f (nat n) x))"
proof (induction "nat n" arbitrary: n x rule: less_induct)
  case less
  consider "n = 0" | "n = 1" | "2 \<le> n" using less.prems by linarith
  then show ?case
  proof cases
    case 1
    then show ?thesis by (simp add: coproduct_iterated_0)
  next
    case 2
    have "module_morphism_to_ring g (naive_coproduct_iterated f (Suc 0) x)
          = module_morphism_to_ring (\<lambda>(a, b). g [a, b]) (f x)" for g
      by (subst naive_linear) (simp only: naive_one_monomial linear_extension_to_ring [OF lin, symmetric])
    then show ?thesis using 2 cop
      by (simp add: coproduct_iterated_1 element_coproduct_def)
  next
    case 3
    define fn where "fn = (n - 1) div 2"
    define cn where "cn = (if n mod 2 \<noteq> 0 then (n - 1) div 2 else n div 2)"
    note nums = split_numbers [OF 3, folded fn_def cn_def]
    have "\<exists>t. coproduct_iterated parent fn (monomial a) = Inr t
             \<and> (\<forall>g. module_morphism_to_ring g (tuple_keys t)
                      = module_morphism_to_ring g
                          (naive_coproduct_iterated f (nat fn) (monomial a)))" for a
      using less.hyps [of fn "monomial a"] nums by simp
    then obtain U where U: "\<And>a. coproduct_iterated parent fn (monomial a) = Inr (U a)"
      and Un: "\<And>a g. module_morphism_to_ring g (tuple_keys (U a))
                      = module_morphism_to_ring g
                          (naive_coproduct_iterated f (nat fn) (monomial a))"
      by metis
    have "\<exists>t. coproduct_iterated parent cn (monomial b) = Inr t
             \<and> (\<forall>g. module_morphism_to_ring g (tuple_keys t)
                      = module_morphism_to_ring g
                          (naive_coproduct_iterated f (nat cn) (monomial b)))" for b
      using less.hyps [of cn "monomial b"] nums by simp
    then obtain V where V: "\<And>b. coproduct_iterated parent cn (monomial b) = Inr (V b)"
      and Vn: "\<And>b g. module_morphism_to_ring g (tuple_keys (V b))
                      = module_morphism_to_ring g
                          (naive_coproduct_iterated f (nat cn) (monomial b))"
      by metis
    let ?y = "linear_combination (map (\<lambda>((a, b), c). (tensor [U a, V b], c)) (f x))"
    have am: "apply_multilinear_morphism
            (\<lambda>a b. case coproduct_iterated parent fn a of
                     Inl e \<Rightarrow> Inl e
                   | Inr u \<Rightarrow>
                       (case coproduct_iterated parent cn b of
                          Inl e \<Rightarrow> Inl e
                        | Inr v \<Rightarrow> Inr (tensor [u, v]))) (f x)
          = Inr ?y"
      by (rule apply_multilinear_morphism_Inr) (simp add: U V)
    have ec: "element_coproduct parent x = Inr (f x)"
      using cop by (simp add: element_coproduct_def)
    have res: "coproduct_iterated parent n x = Inr (Tensor ?y)"
      unfolding coproduct_iterated_split [OF 3 fn_def cn_def] ec sum.case am by simp
    have "module_morphism_to_ring g ?y
          = module_morphism_to_ring g (naive_coproduct_iterated f (nat n) x)" for g
    proof -
      have "module_morphism_to_ring g ?y
            = module_morphism_to_ring
                (\<lambda>(a, b). module_morphism_to_ring
                             (\<lambda>l. module_morphism_to_ring (\<lambda>r. g (l @ r))
                                    (naive_coproduct_iterated f (nat cn) (monomial b)))
                             (naive_coproduct_iterated f (nat fn) (monomial a)))
                (f x)"
        by (simp only: to_ring_linear_combination to_ring_map_pair to_ring_tensor_pair Un Vn)
      also have "\<dots> = module_morphism_to_ring
                (\<lambda>i. module_morphism_to_ring g
                        (naive_coproduct_iterated f (Suc (nat fn + nat cn)) (monomial i))) x"
        by (subst linear_extension_to_ring [OF lin]) (simp only: naive_split [OF co])
      also have "\<dots> = module_morphism_to_ring g (naive_coproduct_iterated f (nat n) x)"
        by (simp only: nums naive_linear [symmetric])
      finally show ?thesis .
    qed
    then show ?thesis using res by simp
  qed
qed

lemma linear_extension_module_morphism: "linear_extension (module_morphism on_basis)"
  by (simp add: linear_extension_def coeff_to_ring)

lemma coproduct_iterated_Tensor:
  "2 \<le> n \<Longrightarrow> coproduct_iterated parent n x = Inr t \<Longrightarrow> \<exists>y. t = Tensor y"
  by (auto simp: coproduct_iterated_split [OF _ refl refl] split: sum.splits)

lemma coassociative_primitive: "coassociative (module_morphism primitive_on_basis)"
  by (simp add: coassociative_def coeff_to_ring to_ring_coproduct_tensor_id
      to_ring_id_tensor_coproduct primitive_on_basis_def)

section \<open>Dictionaries\<close>

lemma keys_add_term: "fst ` set (add_term k c x) \<subseteq> insert k (fst ` set x)"
proof (induction x)
  case Nil
  then show ?case by simp
next
  case (Cons a x)
  obtain j d where a: "a = (j, d)" by (cases a)
  show ?case
  proof (cases "j = k")
    case True
    then show ?thesis by (auto simp: a)
  next
    case False
    then show ?thesis using Cons by (simp add: a) blast
  qed
qed

lemma is_dict_add_term: "is_dict x \<Longrightarrow> is_dict (add_term k c x)"
proof (induction x)
  case Nil
  then show ?case by (simp add: is_dict_def)
next
  case (Cons a x)
  obtain j d where a: "a = (j, d)" by (cases a)
  have tl: "is_dict x" using Cons.prems by (simp add: is_dict_def)
  show ?case
  proof (cases "j = k")
    case True
    then show ?thesis using Cons.prems a tl by (auto simp: is_dict_def)
  next
    case False
    have "j \<notin> fst ` set (add_term k c x)"
      using keys_add_term [of k c x] False Cons.prems a by (auto simp: is_dict_def)
    then show ?thesis using Cons.IH [OF tl] Cons.prems a False by (auto simp: is_dict_def)
  qed
qed

lemma is_dict_axpy: "is_dict acc \<Longrightarrow> is_dict (axpy a y acc)"
  unfolding axpy_def by (induction y arbitrary: acc) (auto simp: is_dict_add_term)

lemma is_dict_fold_axpy: "is_dict acc \<Longrightarrow> is_dict (fold (\<lambda>(y, a). axpy a y) ts acc)"
  by (induction ts arbitrary: acc) (auto simp: is_dict_axpy)

lemma is_dict_linear_combination: "is_dict (linear_combination ts)"
  unfolding linear_combination_def by (rule is_dict_fold_axpy) (simp add: is_dict_def)

lemma is_dict_module_morphism: "is_dict (module_morphism F x)"
  by (simp add: module_morphism_def is_dict_linear_combination)

lemma coeff_outside: "k \<notin> fst ` set x \<Longrightarrow> coeff x k = 0"
  by (induction x) auto

lemma map_of_is_dict:
  "is_dict x \<Longrightarrow> map_of x k = (if coeff x k = 0 then None else Some (coeff x k))"
proof (induction x)
  case Nil
  then show ?case by simp
next
  case (Cons a x)
  obtain j d where a: "a = (j, d)" by (cases a)
  have tl: "is_dict x" using Cons.prems by (simp add: is_dict_def)
  show ?case
  proof (cases "j = k")
    case True
    then have "coeff x k = 0" using Cons.prems a by (intro coeff_outside) (auto simp: is_dict_def)
    then show ?thesis using True a Cons.prems by (auto simp: is_dict_def)
  next
    case False
    then show ?thesis using Cons.IH [OF tl] a by simp
  qed
qed

lemma is_dict_eqI:
  "is_dict x \<Longrightarrow> is_dict y \<Longrightarrow> (\<And>k. coeff x k = coeff y k) \<Longrightarrow> map_of x = map_of y"
  by (rule ext) (simp add: map_of_is_dict)

lemma is_dict_naive: "is_dict (naive_coproduct_iterated f (Suc n) x)"
  by (simp add: coproduct_on_first_factor_def is_dict_module_morphism)

lemma coproduct_iterated_is_dict:
  "2 \<le> n \<Longrightarrow> coproduct_iterated parent n x = Inr (Tensor y) \<Longrightarrow> is_dict y"
  by (auto simp: coproduct_iterated_split [OF _ refl refl] apply_multilinear_morphism_def
      is_dict_linear_combination split: sum.splits)

section \<open>The claims\<close>

subsection \<open>C1\<close>

text \<open>
  Claim C1. For an element of a coalgebra with basis whose coproduct \<open>f\<close> is linear and
  coassociative, and for every integer \<open>n \<ge> 2\<close>, \<open>coproduct_iterated(n)\<close> returns an
  element of the tensor power that equals the naive \<open>n\<close>-fold iterated coproduct, which
  applies the coproduct \<open>n\<close> times to one side: the two have the same coefficients and
  are the same dictionary. The second number of the split, written in the code as a
  conditional expression, is \<open>n - 1 - floor((n - 1) / 2)\<close>.
  The coproduct of a parent that implements \<open>coproduct_on_basis\<close> is linear
  (\<open>linear_extension_module_morphism\<close>).
\<close>

theorem coproduct_iterated_equals_naive:
  assumes "coproduct parent = Some f"
    and "linear_extension f"
    and "coassociative f"
    and "2 \<le> n"
  shows "(\<exists>y. coproduct_iterated parent n self = Inr (Tensor y)
            \<and> (\<forall>k. coeff y k = coeff (naive_coproduct_iterated f (nat n) self) k)
            \<and> map_of y = map_of (naive_coproduct_iterated f (nat n) self))
         \<and> (if n mod 2 \<noteq> 0 then (n - 1) div 2 else n div 2) = n - 1 - (n - 1) div 2"
proof -
  have "0 \<le> n" using assms(4) by simp
  from coproduct_iterated_naive [OF assms(1-3) this, of self]
  obtain t where t: "coproduct_iterated parent n self = Inr t"
    and eq: "\<And>g. module_morphism_to_ring g (tuple_keys t)
              = module_morphism_to_ring g (naive_coproduct_iterated f (nat n) self)"
    by blast
  obtain y where y: "t = Tensor y"
    using coproduct_iterated_Tensor [OF assms(4) t] by blast
  have c: "coeff y k = coeff (naive_coproduct_iterated f (nat n) self) k" for k
    using eq [of "\<lambda>j. if j = k then 1 else 0"] by (simp add: y coeff_to_ring)
  obtain m where m: "nat n = Suc m"
    using assms(4) by (cases "nat n") auto
  have "is_dict y"
    using coproduct_iterated_is_dict [OF assms(4)] t y by simp
  then have d: "map_of y = map_of (naive_coproduct_iterated f (nat n) self)"
    using c is_dict_naive [of f m self] by (intro is_dict_eqI) (simp_all add: m)
  have "(if n mod 2 \<noteq> 0 then (n - 1) div 2 else n div 2) = n - 1 - (n - 1) div 2"
    by presburger
  then show ?thesis using t y c d by simp
qed

text \<open>
  Three coproducts of \<open>2*B[1] + 5*B[0]\<close>, where \<open>B[0]\<close> is group-like and \<open>B[1]\<close> is
  primitive.
\<close>

theorem coproduct_iterated_equals_naive_witness:
  "coproduct primitive_coalgebra = Some (module_morphism primitive_on_basis)
   \<and> linear_extension (module_morphism primitive_on_basis)
   \<and> coassociative (module_morphism primitive_on_basis)
   \<and> (2 :: int) \<le> 3
   \<and> coproduct_iterated primitive_coalgebra 3 [(1, 2), (0, 5)]
       = Inr (Tensor [([1, 0, 0, 0], 2), ([0, 1, 0, 0], 2), ([0, 0, 1, 0], 2),
                      ([0, 0, 0, 1], 2), ([0, 0, 0, 0], 5)])
   \<and> coeff (naive_coproduct_iterated (module_morphism primitive_on_basis) 3 [(1, 2), (0, 5)])
         [0, 0, 1, 0] = 2
   \<and> map_of (naive_coproduct_iterated (module_morphism primitive_on_basis) 3 [(1, 2), (0, 5)])
         [0, 0, 0, 0] = Some 5"
proof -
  let ?f = "module_morphism primitive_on_basis"
  let ?y = "[([1, 0, 0, 0], 2), ([0, 1, 0, 0], 2), ([0, 0, 1, 0], 2),
             ([0, 0, 0, 1], 2), ([0 :: nat, 0, 0, 0], 5 :: int)]"
  have h1: "coproduct primitive_coalgebra = Some ?f"
    by (simp add: coproduct_def primitive_coalgebra_def)
  have h2: "linear_extension ?f" by (rule linear_extension_module_morphism)
  have h3: "coassociative ?f" by (rule coassociative_primitive)
  have h4: "(2 :: int) \<le> 3" by simp
  have run: "coproduct_iterated primitive_coalgebra 3 [(1, 2), (0, 5)] = Inr (Tensor ?y)"
    by code_simp
  have both: "(\<forall>k. coeff ?y k = coeff (naive_coproduct_iterated ?f 3 [(1, 2), (0, 5)]) k)
        \<and> map_of ?y = map_of (naive_coproduct_iterated ?f 3 [(1, 2), (0, 5)])"
    using coproduct_iterated_equals_naive [OF h1 h2 h3 h4, of "[(1, 2), (0, 5)]"] run
    by simp
  then have "coeff ?y [0, 0, 1, 0]
             = coeff (naive_coproduct_iterated ?f 3 [(1, 2), (0, 5)]) [0, 0, 1, 0]"
    by blast
  moreover have "map_of ?y [0, 0, 0, 0]
             = map_of (naive_coproduct_iterated ?f 3 [(1, 2), (0, 5)]) [0, 0, 0, 0]"
    using both by simp
  ultimately show ?thesis using h1 h2 h3 run by simp
qed

subsection \<open>C2\<close>

text \<open>
  Claim C2. When the parent implements \<open>coproduct_on_basis\<close>, its attribute \<open>coproduct\<close>
  is the module morphism into the twofold tensor square that extends
  \<open>coproduct_on_basis\<close> by linearity: on the basis element indexed by \<open>i\<close> it has the
  coefficients of \<open>coproduct_on_basis(i)\<close> (and is the same dictionary, when
  \<open>coproduct_on_basis(i)\<close> is one), and on a linear combination \<open>sum c_i * B[i]\<close> those of
  \<open>sum c_i * coproduct_on_basis(i)\<close>. It is linear: the image of \<open>x + a*y\<close> is the
  image of \<open>x\<close> plus \<open>a\<close> times the image of \<open>y\<close>.
\<close>

theorem coproduct_by_linearity:
  assumes "coproduct_on_basis parent = Some on_basis"
  shows "coproduct parent = Some (module_morphism on_basis)
         \<and> (\<forall>i k. coeff (module_morphism on_basis (monomial i)) k = coeff (on_basis i) k)
         \<and> (\<forall>i. is_dict (on_basis i)
                \<longrightarrow> map_of (module_morphism on_basis (monomial i)) = map_of (on_basis i))
         \<and> (\<forall>x k. coeff (module_morphism on_basis x) k
                   = (\<Sum>(i, c)\<leftarrow>x. c * coeff (on_basis i) k))
         \<and> (\<forall>a x y k. coeff (module_morphism on_basis (axpy a y x)) k
                   = coeff (module_morphism on_basis x) k
                     + a * coeff (module_morphism on_basis y) k)"
proof -
  have c: "coeff (module_morphism on_basis (monomial i)) k = coeff (on_basis i) k" for i k
    by (simp add: coeff_module_morphism monomial_def)
  have d: "map_of (module_morphism on_basis (monomial i)) = map_of (on_basis i)"
    if "is_dict (on_basis i)" for i
    using that c by (intro is_dict_eqI) (simp_all add: is_dict_module_morphism)
  have l: "coeff (module_morphism on_basis (axpy a y x)) k
           = coeff (module_morphism on_basis x) k + a * coeff (module_morphism on_basis y) k"
    for a x y k
    by (simp add: coeff_to_ring)
  show ?thesis using assms c d l by (simp add: coproduct_def coeff_module_morphism)
qed

text \<open>
  The group algebra: the coproduct of \<open>2*B[1] + 3*B[2]\<close> is
  \<open>2*B[1] # B[1] + 3*B[2] # B[2]\<close>.
\<close>

theorem coproduct_by_linearity_witness:
  "coproduct_on_basis group_coalgebra = Some (\<lambda>g. [((g, g), 1)])
   \<and> (\<exists>f. coproduct group_coalgebra = Some f
          \<and> coeff (f [(1, 2), (2, 3)]) (2, 2) = 3
          \<and> coeff (f [(1, 2), (2, 3)]) (1, 2) = 0)"
proof -
  have h: "coproduct_on_basis group_coalgebra = Some (\<lambda>g. [((g, g), 1)])"
    by (simp add: group_coalgebra_def)
  show ?thesis using h coproduct_by_linearity [OF h] by simp
qed

subsection \<open>C3\<close>

text \<open>
  Claim C3. For a tensor product of \<open>k \<ge> 1\<close> algebras with basis and two \<open>k\<close>-tuples
  \<open>t1\<close>, \<open>t2\<close> of basis indices, \<open>product_on_basis(t1, t2)\<close> is the tensor product of
  the products \<open>A_j.monomial(x_j) * A_j.monomial(y_j)\<close> of the factors: its coefficient at
  a \<open>k\<close>-tuple \<open>z\<close> is the product over \<open>j\<close> of the coefficient of the \<open>j\<close>-th factor
  product at \<open>z_j\<close>, it has no other coefficient, and each factor product has the
  coefficients of the factor's \<open>product_on_basis(x_j, y_j)\<close>.
\<close>

theorem product_on_basis_componentwise:
  assumes "sets \<noteq> []" and "length t1 = length sets" and "length t2 = length sets"
  shows "coeff (TensorProducts_product_on_basis sets t1 t2) z
         = (if length z = length sets
            then (\<Prod>j<length sets.
                    coeff (mult (sets ! j) (monomial (t1 ! j)) (monomial (t2 ! j))) (z ! j))
            else 0)
         \<and> (\<forall>j<length sets. \<forall>k.
               coeff (mult (sets ! j) (monomial (t1 ! j)) (monomial (t2 ! j))) k
               = coeff (product_on_basis (sets ! j) (t1 ! j) (t2 ! j)) k)"
proof -
  let ?ys = "map (\<lambda>(factor, x1, x2). mult factor (monomial x1) (monomial x2))
               (zip sets (zip t1 t2))"
  have eq: "TensorProducts_product_on_basis sets t1 t2 = tensor (map Atomic ?ys)"
    by (simp add: TensorProducts_product_on_basis_def comp_def case_prod_unfold)
  have len: "length ?ys = length sets" using assms by simp
  have nth: "?ys ! j = mult (sets ! j) (monomial (t1 ! j)) (monomial (t2 ! j))"
    if "j < length sets" for j
    using that assms by simp
  have pr: "prod_list (map (\<lambda>(y, k). coeff y k) (zip ?ys z))
        = (\<Prod>j<length sets.
             coeff (mult (sets ! j) (monomial (t1 ! j)) (monomial (t2 ! j))) (z ! j))"
    if lz: "length z = length sets"
  proof -
    have "map (\<lambda>(y, k). coeff y k) (zip ?ys z)
          = map (\<lambda>j. coeff (mult (sets ! j) (monomial (t1 ! j)) (monomial (t2 ! j))) (z ! j))
              [0..<length sets]"
      using lz len nth by (intro nth_equalityI) auto
    then show ?thesis
      using prod.distinct_set_conv_list [of "[0..<length sets]", symmetric]
      by (simp add: atLeast0LessThan)
  qed
  have t: "coeff (tensor (map Atomic ?ys)) z
        = (if length z = length sets
           then prod_list (map (\<lambda>(y, k). coeff y k) (zip ?ys z)) else 0)"
    using coeff_tensor_Atomic [of ?ys z] by (simp only: len)
  have first: "coeff (TensorProducts_product_on_basis sets t1 t2) z
         = (if length z = length sets
            then (\<Prod>j<length sets.
                    coeff (mult (sets ! j) (monomial (t1 ! j)) (monomial (t2 ! j))) (z ! j))
            else 0)"
  proof (cases "length z = length sets")
    case True
    show ?thesis using t pr [OF True] by (simp only: eq True if_True)
  next
    case False
    show ?thesis using t by (simp only: eq False if_False)
  qed
  show ?thesis using first by (simp add: coeff_mult_monomial)
qed

text \<open>
  The doctest of \<open>product_on_basis\<close>: in \<open>tensor((A, A, A))\<close> over the free algebra,
  \<open>(a # b # c) * (c # b # a)\<close> is \<open>B[word: ac] # B[word: bb] # B[word: ca]\<close>.
\<close>

theorem product_on_basis_componentwise_witness:
  "[free_algebra, free_algebra, free_algebra] \<noteq> []
   \<and> length [''a'', ''b'', ''c''] = length [free_algebra, free_algebra, free_algebra]
   \<and> length [''c'', ''b'', ''a''] = length [free_algebra, free_algebra, free_algebra]
   \<and> TensorProducts_product_on_basis [free_algebra, free_algebra, free_algebra]
        [''a'', ''b'', ''c''] [''c'', ''b'', ''a'']
       = [([''ac'', ''bb'', ''ca''], 1)]
   \<and> (\<Prod>j<3. coeff (product_on_basis free_algebra ([''a'', ''b'', ''c''] ! j)
                        ([''c'', ''b'', ''a''] ! j))
                ([''ac'', ''bb'', ''ca''] ! j)) = 1"
proof -
  let ?A = "[free_algebra, free_algebra, free_algebra]"
  have h1: "?A \<noteq> []" by simp
  have h2: "length [''a'', ''b'', ''c''] = length ?A" by simp
  have h3: "length [''c'', ''b'', ''a''] = length ?A" by simp
  have run: "TensorProducts_product_on_basis ?A [''a'', ''b'', ''c''] [''c'', ''b'', ''a'']
       = [([''ac'', ''bb'', ''ca''], 1)]"
    by code_simp
  have three: "{..<3 :: nat} = {0, 1, 2}" by auto
  show ?thesis
    using product_on_basis_componentwise [OF h1 h2 h3, of "[''ac'', ''bb'', ''ca'']"] run
    by (simp add: three free_algebra_def monomial_def)
qed

subsection \<open>C4\<close>

text \<open>
  Claim C4. When every factor of a tensor product provides a \<open>one_basis\<close> method,
  \<open>one_basis()\<close> returns the tuple of the factors' \<open>one_basis()\<close>, and the one of the
  tensor product is the basis element indexed by that tuple.
\<close>

theorem TensorProducts_one_basis_tuple:
  assumes "map one_basis sets = map Method ones"
  shows "TensorProducts_one_basis sets = Inr ones
         \<and> TensorProducts_one sets = Inr (monomial ones)"
proof -
  have "\<forall>factor\<in>set sets. one_basis factor \<noteq> Absent"
  proof
    fix factor assume "factor \<in> set sets"
    then have "one_basis factor \<in> set (map Method ones)" using assms
      by (metis image_eqI set_map)
    then show "one_basis factor \<noteq> Absent" by auto
  qed
  then have "TensorProducts_one_basis sets = Inr ones"
    using map_result_call_one_basis_Method [OF assms]
    by (simp add: TensorProducts_one_basis_def hasattr_one_basis_def list_all_iff)
  then show ?thesis by (simp add: TensorProducts_one_def)
qed

text \<open>
  The doctest of \<open>one_basis\<close>: for \<open>B = tensor((A, A, A))\<close> over the free algebra,
  \<open>B.one_basis()\<close> is \<open>(word: , word: , word: )\<close>.
\<close>

theorem TensorProducts_one_basis_tuple_witness:
  "map one_basis [free_algebra, free_algebra, free_algebra] = map Method [[], [], []]
   \<and> TensorProducts_one_basis [free_algebra, free_algebra, free_algebra] = Inr [[], [], []]
   \<and> TensorProducts_one [free_algebra, free_algebra, free_algebra] = Inr [([[], [], []], 1)]"
proof -
  have h: "map one_basis [free_algebra, free_algebra, free_algebra] = map Method [[], [], []]"
    by (simp add: free_algebra_def)
  show ?thesis using h TensorProducts_one_basis_tuple [OF h] by (simp add: monomial_def)
qed

subsection \<open>C5\<close>




subsection \<open>C6\<close>

text \<open>
  Claim C6. When the parent implements \<open>counit_on_basis\<close>, its attribute \<open>counit\<close> is the
  module morphism into the base ring that extends \<open>counit_on_basis\<close> by linearity (it
  sends \<open>B[i]\<close> to \<open>counit_on_basis(i)\<close>, a linear combination to the sum of the
  coefficients times these values, and \<open>x + a*y\<close> to its value at \<open>x\<close> plus \<open>a\<close> times
  its value at \<open>y\<close>); when
  \<open>counit_on_basis\<close> is not implemented and the parent has \<open>counit_by_coercion\<close>, the
  attribute is \<open>counit_by_coercion\<close>.
\<close>

theorem counit_by_linearity:
  "(\<forall>on_basis. counit_on_basis parent = Some on_basis \<longrightarrow>
      counit parent = Some (module_morphism_to_ring on_basis)
      \<and> (\<forall>i. module_morphism_to_ring on_basis (monomial i) = on_basis i)
      \<and> (\<forall>x. module_morphism_to_ring on_basis x = (\<Sum>(i, c)\<leftarrow>x. c * on_basis i))
      \<and> (\<forall>a x y. module_morphism_to_ring on_basis (axpy a y x)
                  = module_morphism_to_ring on_basis x + a * module_morphism_to_ring on_basis y))
   \<and> (\<forall>by_coercion. counit_on_basis parent = None \<and> counit_by_coercion parent = Some by_coercion
        \<longrightarrow> counit parent = Some by_coercion)"
proof -
  have s: "module_morphism_to_ring on_basis x = (\<Sum>(i, c)\<leftarrow>x. c * on_basis i)"
    for on_basis :: "'a \<Rightarrow> 'b" and x
    by (simp add: module_morphism_to_ring_def)
  show ?thesis by (simp add: counit_def s [symmetric])
qed

text \<open>
  The group algebra, whose counit sends \<open>2*B[1] + 3*B[2]\<close> to 5, and its realization
  that only has \<open>counit_by_coercion\<close>.
\<close>

theorem counit_by_linearity_witness:
  "(\<exists>f. counit group_coalgebra = Some f \<and> f [(1, 2), (2, 3)] = 5)
   \<and> counit_on_basis realization_coalgebra = None
   \<and> counit realization_coalgebra = counit_by_coercion realization_coalgebra
   \<and> counit realization_coalgebra \<noteq> None"
  using counit_by_linearity [of group_coalgebra] counit_by_linearity [of realization_coalgebra]
  by (simp add: group_coalgebra_def realization_coalgebra_def)

subsection \<open>C7\<close>

text \<open>
  Claim C7. For every base ring \<open>R\<close>, \<open>extra_super_categories()\<close> of
  \<open>AlgebrasWithBasis(R).CartesianProducts()\<close> and of
  \<open>AlgebrasWithBasis(R).TensorProducts()\<close> is the one-element list that holds the base
  category \<open>AlgebrasWithBasis(R)\<close>. So, whatever else the framework merges in,
  \<open>AlgebrasWithBasis(R)\<close> is among the super-categories of the two categories of
  products, and every method of \<open>AlgebrasWithBasis(R)\<close> is in their effective interface.
\<close>

theorem extra_super_categories_base:
  "CartesianProducts_extra_super_categories (CartesianProducts (AlgebrasWithBasis R))
     = [AlgebrasWithBasis R]
   \<and> TensorProducts_extra_super_categories (TensorProducts (AlgebrasWithBasis R))
     = [AlgebrasWithBasis R]
   \<and> AlgebrasWithBasis R
       \<in> set (super_categories default_super_categories
                 (CartesianProducts (AlgebrasWithBasis R)))
   \<and> AlgebrasWithBasis R
       \<in> set (super_categories default_super_categories
                 (TensorProducts (AlgebrasWithBasis R)))
   \<and> methods (AlgebrasWithBasis R)
       \<subseteq> effective_interface methods default_super_categories
           (CartesianProducts (AlgebrasWithBasis R))
   \<and> methods (AlgebrasWithBasis R)
       \<subseteq> effective_interface methods default_super_categories
           (TensorProducts (AlgebrasWithBasis R))"
  by (auto simp: CartesianProducts_extra_super_categories_def
      TensorProducts_extra_super_categories_def super_categories_def effective_interface_def)

text \<open>
  The doctests of \<open>extra_super_categories\<close> over the rational field: the lists of
  super-categories they print, and \<open>__invert__\<close> among the methods that the Cartesian
  products inherit.
\<close>

theorem extra_super_categories_base_witness:
  "super_categories doctest_default_super_categories
      (CartesianProducts (AlgebrasWithBasis ''QQ''))
     = [AlgebrasWithBasis ''QQ'', CartesianProductsOf (Algebras ''QQ''),
        CartesianProductsOf (ModulesWithBasis ''QQ'')]
   \<and> super_categories doctest_default_super_categories
      (TensorProducts (AlgebrasWithBasis ''QQ''))
     = [AlgebrasWithBasis ''QQ'', TensorProductsOf (Algebras ''QQ''),
        TensorProductsOf (ModulesWithBasis ''QQ'')]
   \<and> ''__invert__''
       \<in> effective_interface doctest_methods doctest_default_super_categories
           (CartesianProducts (AlgebrasWithBasis ''QQ''))"
  using extra_super_categories_base
    [of "''QQ''" doctest_default_super_categories doctest_methods]
  by (auto simp: super_categories_def)

subsection \<open>C8\<close>

text \<open>
  Claim C8, amended. \<open>__invert__\<close> first calls \<open>parent.one_basis()\<close>. When the call
  returns \<open>one\<close>: if the monomial coefficients of \<open>self\<close> are the single entry
  \<open>one: c\<close>, the method returns \<open>term(one, ~c)\<close>, or raises what \<open>~c\<close> raises when \<open>c\<close>
  has no inverse; in every other case it raises \<open>ValueError\<close>. When the call raises, the
  method raises the same exception: \<open>TypeError\<close> for a parent that does not implement
  \<open>one_basis\<close>, and for a tensor product one of whose factors does not. In every case
  \<open>self\<close> is left unchanged.
\<close>

theorem invert_of_multiple_of_one:
  "fst (invert ring_invert parent self)
     = (case parent_call_one_basis parent of
          Inl e \<Rightarrow> Inl e
        | Inr one \<Rightarrow>
            (case self of
               [(k, c)] \<Rightarrow>
                 if k = one then
                   (case ring_invert c of Inl e \<Rightarrow> Inl e | Inr d \<Rightarrow> Inr (term_elt one d))
                 else Inl ValueError
             | _ \<Rightarrow> Inl ValueError))
   \<and> snd (invert ring_invert parent self) = self
   \<and> (\<forall>factor one. parent = Plain factor \<and> one_basis factor = Method one \<longrightarrow>
         fst (invert ring_invert parent self)
           = (case self of
                [(k, c)] \<Rightarrow>
                  if k = Index one then
                    (case ring_invert c of
                       Inl e \<Rightarrow> Inl e
                     | Inr d \<Rightarrow> Inr (term_elt (Index one) d))
                  else Inl ValueError
              | _ \<Rightarrow> Inl ValueError))
   \<and> (\<forall>factor. parent = Plain factor \<and> one_basis factor = NotImplemented \<longrightarrow>
         fst (invert ring_invert parent self) = Inl TypeError)
   \<and> (\<forall>sets. parent = TensorProduct sets
              \<and> (\<forall>factor\<in>set sets. one_basis factor \<noteq> Absent)
              \<and> (\<exists>factor\<in>set sets. one_basis factor = NotImplemented) \<longrightarrow>
         fst (invert ring_invert parent self) = Inl TypeError)"
proof -
  have first: "fst (invert ring_invert parent self)
     = (case parent_call_one_basis parent of
          Inl e \<Rightarrow> Inl e
        | Inr one \<Rightarrow>
            (case self of
               [(k, c)] \<Rightarrow>
                 if k = one then
                   (case ring_invert c of Inl e \<Rightarrow> Inl e | Inr d \<Rightarrow> Inr (term_elt one d))
                 else Inl ValueError
             | _ \<Rightarrow> Inl ValueError))"
    by (auto simp: invert_def split: list.splits sum.splits)
  have unchanged: "snd (invert ring_invert parent self) = self"
    by (simp add: invert_def)
  have tensor: "fst (invert ring_invert parent self) = Inl TypeError"
    if "parent = TensorProduct sets"
      and "\<forall>factor\<in>set sets. one_basis factor \<noteq> Absent"
      and "\<exists>factor\<in>set sets. one_basis factor = NotImplemented" for sets
  proof -
    have "TensorProducts_one_basis sets = Inl TypeError"
      using that(2,3) map_result_call_one_basis_NotImplemented [of sets]
      by (simp add: TensorProducts_one_basis_def hasattr_one_basis_def list_all_iff)
    then show ?thesis using that(1) first by simp
  qed
  show ?thesis
    using first unchanged tensor by (auto simp: call_one_basis_def)
qed

text \<open>
  The doctest of \<open>__invert__\<close>: in the free algebra over the rationals the inverse of
  \<open>2*B[word: ]\<close> is \<open>1/2*B[word: ]\<close>, and inverting the generator \<open>B[word: a]\<close> raises
  \<open>ValueError\<close>. In an algebra \<open>N\<close> that does not implement \<open>one_basis\<close>, and in the
  tensor product of the free algebra with \<open>N\<close>, inverting raises \<open>TypeError\<close>.
\<close>

theorem invert_of_multiple_of_one_witness:
  "invert rational_invert (Plain free_algebra) [(Index [], 2)]
     = (Inr [(Index [], 1 / 2)], [(Index [], 2)])
   \<and> invert rational_invert (Plain free_algebra) [(Index ''a'', 1)]
     = (Inl ValueError, [(Index ''a'', 1)])
   \<and> invert rational_invert (Plain algebra_without_one_basis) [(Index [], 2)]
     = (Inl TypeError, [(Index [], 2)])
   \<and> invert rational_invert (TensorProduct [free_algebra, algebra_without_one_basis])
        [(Tuple [[], []], 2)]
     = (Inl TypeError, [(Tuple [[], []], 2)])
   \<and> invert rational_invert (TensorProduct [free_algebra, free_algebra]) [(Tuple [[], []], 2)]
     = (Inr [(Tuple [[], []], 1 / 2)], [(Tuple [[], []], 2)])"
  using invert_of_multiple_of_one [of rational_invert "Plain free_algebra" "[(Index [], 2)]"]
    invert_of_multiple_of_one [of rational_invert "Plain free_algebra" "[(Index ''a'', 1)]"]
    invert_of_multiple_of_one
      [of rational_invert "Plain algebra_without_one_basis" "[(Index [], 2)]"]
    invert_of_multiple_of_one
      [of rational_invert "TensorProduct [free_algebra, algebra_without_one_basis]"
          "[(Tuple [[], []], 2)]"]
    invert_of_multiple_of_one
      [of rational_invert "TensorProduct [free_algebra, free_algebra]" "[(Tuple [[], []], 2)]"]
  by (simp add: prod_eq_iff free_algebra_def algebra_without_one_basis_def rational_invert_def
      term_elt_def call_one_basis_def TensorProducts_one_basis_def hasattr_one_basis_def)

text \<open>
  Claim C8 as stated fails: for a parent that does not implement the optional method
  \<open>one_basis\<close> the call \<open>self.parent().one_basis()\<close> raises \<open>TypeError\<close>, whatever the
  element is, so "every other case" does not raise \<open>ValueError\<close>.
\<close>

theorem invert_without_one_basis_counterexample:
  "fst (invert rational_invert (Plain algebra_without_one_basis) []) = Inl TypeError
   \<and> fst (invert rational_invert (Plain algebra_without_one_basis) []) \<noteq> Inl ValueError"
  by (simp add: invert_def call_one_basis_def algebra_without_one_basis_def)

subsection \<open>C9\<close>

text \<open>
  Claim C9. \<open>coproduct_iterated(n)\<close> raises \<open>ValueError\<close> exactly when \<open>n < 0\<close>;
  \<open>coproduct_iterated(0)\<close> returns the element itself, and \<open>coproduct_iterated(1)\<close> its
  coproduct (\<open>TypeError\<close> from the call when the parent has no coproduct).
\<close>

theorem coproduct_iterated_ValueError:
  "(coproduct_iterated parent n self = Inl ValueError \<longleftrightarrow> n < 0)
   \<and> coproduct_iterated parent 0 self = Inr (Atomic self)
   \<and> coproduct_iterated parent 1 self
       = (case coproduct parent of
            None \<Rightarrow> Inl TypeError
          | Some f \<Rightarrow> Inr (Tensor2 (f self)))"
proof -
  have "coproduct_iterated parent n self \<noteq> Inl ValueError" if "0 \<le> n"
  proof (cases "coproduct parent")
    case None
    show ?thesis
    proof (cases "n = 0")
      case True
      then show ?thesis by (simp add: coproduct_iterated_0)
    next
      case False
      then have "0 < n" using that by simp
      then show ?thesis using coproduct_iterated_None [OF None] by simp
    qed
  next
    case (Some f)
    then show ?thesis using coproduct_iterated_returns [OF Some that, of self] by auto
  qed
  then have "coproduct_iterated parent n self = Inl ValueError \<longleftrightarrow> n < 0"
    using coproduct_iterated_negative [of n parent self] by (cases "n < 0") auto
  then show ?thesis
    by (simp add: coproduct_iterated_0 coproduct_iterated_1 element_coproduct_def
        split: option.splits)
qed

text \<open>
  The group algebra with \<open>n = -1\<close>, \<open>n = 0\<close> and \<open>n = 1\<close>.
\<close>

theorem coproduct_iterated_ValueError_witness:
  "coproduct_iterated group_coalgebra (- 1) [(1, 2)] = Inl ValueError
   \<and> coproduct_iterated group_coalgebra 0 [(1, 2)] = Inr (Atomic [(1, 2)])
   \<and> coproduct_iterated group_coalgebra 1 [(1, 2)] = Inr (Tensor2 [((1, 1), 2)])"
  using coproduct_iterated_ValueError [of group_coalgebra "- 1" "[(1, 2)]"]
    coproduct_iterated_ValueError [of group_coalgebra 0 "[(1, 2)]"]
  by (simp add: coproduct_def group_coalgebra_def module_morphism_def linear_combination_def
      axpy_def)

subsection \<open>C10\<close>

text \<open>
  Claim C10. \<open>one_basis()\<close> of a tensor product raises \<open>NotImplementedError\<close> exactly when
  some factor lacks the attribute \<open>one_basis\<close>. The check is on the presence of the
  attribute only, whereas the dispatch of \<open>one\<close> of a Cartesian product also requires the
  attribute not to be \<open>NotImplemented\<close>: when every factor has the attribute and one of
  them holds \<open>NotImplemented\<close>, the tensor product's check passes (the call then raises
  \<open>TypeError\<close>) and the Cartesian product falls back to the generic \<open>one\<close>. A factor of
  a Cartesian product that is itself a tensor product always passes the dispatch's test.
\<close>

theorem TensorProducts_one_basis_NotImplementedError:
  "(TensorProducts_one_basis sets = Inl NotImplementedError
      \<longleftrightarrow> (\<exists>factor\<in>set sets. one_basis factor = Absent))
   \<and> (CartesianProducts_one (map Plain sets) = Bound_one_from_cartesian_product_of_one_basis
      \<longleftrightarrow> (\<forall>factor\<in>set sets. one_basis factor \<noteq> Absent \<and> one_basis factor \<noteq> NotImplemented))
   \<and> ((\<forall>factor\<in>set sets. one_basis factor \<noteq> Absent)
        \<and> (\<exists>factor\<in>set sets. one_basis factor = NotImplemented)
      \<longrightarrow> TensorProducts_one_basis sets = Inl TypeError
          \<and> CartesianProducts_one (map Plain sets) = Bound_one_generic)
   \<and> CartesianProducts_one (TensorProduct sets # factors) = CartesianProducts_one factors"
proof (intro conjI impI)
  show "TensorProducts_one_basis sets = Inl NotImplementedError
      \<longleftrightarrow> (\<exists>factor\<in>set sets. one_basis factor = Absent)"
  proof (cases "\<forall>factor\<in>set sets. one_basis factor \<noteq> Absent")
    case True
    then have "map_result call_one_basis sets \<noteq> Inl NotImplementedError"
      using map_result_call_one_basis_present [of sets NotImplementedError] by auto
    then show ?thesis using True
      by (simp add: TensorProducts_one_basis_def hasattr_one_basis_def list_all_iff)
  next
    case False
    then show ?thesis
      by (auto simp: TensorProducts_one_basis_def hasattr_one_basis_def list_all_iff)
  qed
  show "CartesianProducts_one (map Plain sets) = Bound_one_from_cartesian_product_of_one_basis
      \<longleftrightarrow> (\<forall>factor\<in>set sets. one_basis factor \<noteq> Absent \<and> one_basis factor \<noteq> NotImplemented)"
    by (simp add: CartesianProducts_one_def hasattr_one_basis_def list_all_iff)
  show "CartesianProducts_one (TensorProduct sets # factors) = CartesianProducts_one factors"
    by (simp add: CartesianProducts_one_def)
next
  assume a: "(\<forall>factor\<in>set sets. one_basis factor \<noteq> Absent)
        \<and> (\<exists>factor\<in>set sets. one_basis factor = NotImplemented)"
  then show "TensorProducts_one_basis sets = Inl TypeError"
    using map_result_call_one_basis_NotImplemented [of sets]
    by (simp add: TensorProducts_one_basis_def hasattr_one_basis_def list_all_iff)
  show "CartesianProducts_one (map Plain sets) = Bound_one_generic"
    using a by (auto simp: CartesianProducts_one_def hasattr_one_basis_def list_all_iff)
qed

text \<open>
  Tensor and Cartesian products of the free algebra with a factor without the attribute,
  and with a factor whose \<open>one_basis\<close> is \<open>NotImplemented\<close>.
\<close>

theorem TensorProducts_one_basis_NotImplementedError_witness:
  "TensorProducts_one_basis [free_algebra, module_without_attribute] = Inl NotImplementedError
   \<and> TensorProducts_one_basis [free_algebra, algebra_without_one_basis] = Inl TypeError
   \<and> CartesianProducts_one [Plain free_algebra, Plain algebra_without_one_basis]
       = Bound_one_generic
   \<and> CartesianProducts_one [Plain free_algebra, Plain free_algebra]
       = Bound_one_from_cartesian_product_of_one_basis"
  using TensorProducts_one_basis_NotImplementedError
      [of "[free_algebra, module_without_attribute]" "[]"]
    TensorProducts_one_basis_NotImplementedError
      [of "[free_algebra, algebra_without_one_basis]" "[]"]
    TensorProducts_one_basis_NotImplementedError [of "[free_algebra, free_algebra]" "[]"]
  by (simp add: free_algebra_def module_without_attribute_def algebra_without_one_basis_def)

end
